theory Spec2Isabelle
  imports Main "HOL-Library.Word"
begin

section \<open>Data model\<close>

text \<open>
  Go's \<^verbatim>\<open>[]byte\<close> and \<^verbatim>\<open>string\<close> are both byte sequences; both are modelled as
  lists of 8-bit characters.
\<close>

type_synonym bytes = string

text \<open>\<^verbatim>\<open>pem.Block\<close>: the type label, the headers and the decoded contents of one block.\<close>

record pem_Block =
  Block_Type :: string
  Block_Headers :: "(string \<times> string) list"
  Block_Bytes :: bytes

text \<open>
  \<^verbatim>\<open>pem.Decode\<close> belongs to the Go standard library, so it is a parameter of the model.
  Its documented contract is kept in the type: it returns either a block and the rest of
  the input after that block, which is shorter than the input, or no block. The loop of
  \<^verbatim>\<open>loadPEMDERs\<close> terminates because of this contract.
\<close>

typedef pem_decoder =
  "{f :: bytes \<Rightarrow> pem_Block option \<times> bytes.
      \<forall>d b r. f d = (Some b, r) \<longrightarrow> length r < length d}"
  by (rule exI [of _ "\<lambda>d. (None, d)"]) simp

lemma pem_decoder_shorter:
  "Rep_pem_decoder dec d = (Some b, r) \<Longrightarrow> length r < length d"
  using Rep_pem_decoder [of dec] by simp

text \<open>
  What the server reads of a parsed \<^verbatim>\<open>*url.URL\<close>: the result of \<^verbatim>\<open>String()\<close> and the
  field \<^verbatim>\<open>Host\<close>; and of a parsed \<^verbatim>\<open>*x509.Certificate\<close>: the URI subject alternative
  names, in order.
\<close>

record url =
  URL_String :: string
  URL_Host :: string

record certificate =
  URIs :: "url list"

text \<open>
  A parsed private key (\<^verbatim>\<open>*ecdsa.PrivateKey\<close> or \<^verbatim>\<open>*rsa.PrivateKey\<close>); the payload stands
  for the key's parameters, which the server never inspects.
\<close>

datatype private_key = ECDSA_PrivateKey bytes | RSA_PrivateKey bytes

text \<open>The on-disk format of \<^verbatim>\<open>trust_bundles.json\<close>.\<close>

record trustKey =
  Use :: string
  Kty :: string
  Crv :: string
  KeyX :: string
  KeyY :: string
  X5C :: "string list"

record trustDomainEntry =
  Keys :: "trustKey list"
  SpiffeSequence :: int

text \<open>
  \<^verbatim>\<open>TrustDomains\<close> is a Go map. It is modelled as an association list whose order is the
  order in which \<^verbatim>\<open>range\<close> visits the entries; a Go map holds each key once, which
  the theorems that need it assume as \<open>distinct (map fst (TrustDomains tb))\<close>.
\<close>

record trustBundlesFile =
  TrustDomains :: "(string \<times> trustDomainEntry) list"

text \<open>
  The standard-library functions the server calls. An error of a library function is its
  message (\<open>Inl\<close>).
\<close>

record stdlib =
  filepath_Join :: "string \<Rightarrow> string \<Rightarrow> string"
  pem_Decode :: pem_decoder
  x509_ParseCertificate :: "bytes \<Rightarrow> string + certificate"
  x509_ParseECPrivateKey :: "bytes \<Rightarrow> string + private_key"
  x509_ParsePKCS1PrivateKey :: "bytes \<Rightarrow> string + private_key"
  x509_MarshalPKCS8PrivateKey :: "private_key \<Rightarrow> string + bytes"
  base64_DecodeString :: "string \<Rightarrow> string + bytes"
  json_Unmarshal :: "bytes \<Rightarrow> string + trustBundlesFile"
  json_Marshal_trustKey :: "trustKey \<Rightarrow> string + bytes"
  json_Marshal_jwks :: "bytes list \<Rightarrow> string + bytes"

text \<open>
  The file system at one moment: \<^verbatim>\<open>os.ReadFile\<close> of a path gives its contents, or fails
  (\<open>None\<close>).
\<close>

type_synonym filesystem = "string \<rightharpoonup> bytes"

text \<open>
  The errors of the server, one constructor for each \<^verbatim>\<open>fmt.Errorf\<close> of the source; a
  wrapped error (\<^verbatim>\<open>%w\<close>) is the constructor's last argument.
\<close>

datatype error =
    ReadFailed string
  | NoPEMBlock string
  | ParseECFailed string
  | ParseRSAFailed string
  | MarshalPKCS8Failed string
  | UnsupportedPEMType string string
  | ParseTrustBundlesFailed string
  | LoadCertificates error
  | NoCertificatesFound
  | LoadPrivateKey error
  | LoadCACertificates error
  | ParseLeafFailed string
  | NoURISANs
  | LoadTrustBundles error
  | DecodeX5CFailed string string
  | MarshalJWTKeyFailed string string
  | MarshalJWKSFailed string string

record ShimServer =
  credsDir :: string

section \<open>Credential decoder\<close>

text \<open>
  The loop of \<^verbatim>\<open>loadPEMDERs\<close>: decode a block, stop when the input is used up or when
  \<^verbatim>\<open>pem.Decode\<close> returns no block, otherwise append the block's bytes and go on with
  the rest.
\<close>

function loadPEMDERs_loop :: "pem_decoder \<Rightarrow> bytes \<Rightarrow> bytes list \<Rightarrow> bytes list" where
  "loadPEMDERs_loop dec data ders =
     (if length data > 0 then
        (case Rep_pem_decoder dec data of
           (None, rest) \<Rightarrow> ders
         | (Some block, rest) \<Rightarrow> loadPEMDERs_loop dec rest (ders @ [Block_Bytes block]))
      else ders)"
  by pat_completeness auto
termination
  by (relation "measure (\<lambda>(dec, data, ders). length data)")
     (auto dest: pem_decoder_shorter [OF sym])

declare loadPEMDERs_loop.simps [simp del]

definition loadPEMDERs :: "stdlib \<Rightarrow> filesystem \<Rightarrow> ShimServer \<Rightarrow> string \<Rightarrow> error + bytes list" where
  "loadPEMDERs L fs s name =
     (case fs (filepath_Join L (credsDir s) name) of
        None \<Rightarrow> Inl (ReadFailed name)
      | Some data \<Rightarrow> Inr (loadPEMDERs_loop (pem_Decode L) data []))"

definition loadPrivateKeyPKCS8DER :: "stdlib \<Rightarrow> filesystem \<Rightarrow> ShimServer \<Rightarrow> string \<Rightarrow> error + bytes" where
  "loadPrivateKeyPKCS8DER L fs s name =
     (case fs (filepath_Join L (credsDir s) name) of
        None \<Rightarrow> Inl (ReadFailed name)
      | Some data \<Rightarrow>
          (case fst (Rep_pem_decoder (pem_Decode L) data) of
             None \<Rightarrow> Inl (NoPEMBlock name)
           | Some block \<Rightarrow>
               if Block_Type block = ''PRIVATE KEY'' then Inr (Block_Bytes block)
               else if Block_Type block = ''EC PRIVATE KEY'' then
                 (case x509_ParseECPrivateKey L (Block_Bytes block) of
                    Inl e \<Rightarrow> Inl (ParseECFailed e)
                  | Inr key \<Rightarrow>
                      (case x509_MarshalPKCS8PrivateKey L key of
                         Inl e \<Rightarrow> Inl (MarshalPKCS8Failed e)
                       | Inr der \<Rightarrow> Inr der))
               else if Block_Type block = ''RSA PRIVATE KEY'' then
                 (case x509_ParsePKCS1PrivateKey L (Block_Bytes block) of
                    Inl e \<Rightarrow> Inl (ParseRSAFailed e)
                  | Inr key \<Rightarrow>
                      (case x509_MarshalPKCS8PrivateKey L key of
                         Inl e \<Rightarrow> Inl (MarshalPKCS8Failed e)
                       | Inr der \<Rightarrow> Inr der))
               else Inl (UnsupportedPEMType (Block_Type block) name)))"

definition loadTrustBundles :: "stdlib \<Rightarrow> filesystem \<Rightarrow> ShimServer \<Rightarrow> error + trustBundlesFile" where
  "loadTrustBundles L fs s =
     (case fs (filepath_Join L (credsDir s) ''trust_bundles.json'') of
        None \<Rightarrow> Inl (ReadFailed ''trust_bundles.json'')
      | Some data \<Rightarrow>
          (case json_Unmarshal L data of
             Inl e \<Rightarrow> Inl (ParseTrustBundlesFailed e)
           | Inr tb \<Rightarrow> Inr tb))"

fun concatDERs :: "bytes list \<Rightarrow> bytes" where
  "concatDERs [] = []"
| "concatDERs (d # ders) = d @ concatDERs ders"

section \<open>Response builder\<close>

record X509SVID =
  SpiffeId :: string
  X509Svid :: bytes
  X509SvidKey :: bytes
  Bundle :: bytes

record X509SVIDResponse =
  Svids :: "X509SVID list"

record X509BundlesResponse =
  X509_Bundles :: "string \<rightharpoonup> bytes"

record JWTBundlesResponse =
  JWT_Bundles :: "string \<rightharpoonup> bytes"

definition buildX509SVIDResponse :: "stdlib \<Rightarrow> filesystem \<Rightarrow> ShimServer \<Rightarrow> error + X509SVIDResponse" where
  "buildX509SVIDResponse L fs s =
     (case loadPEMDERs L fs s ''certificates.pem'' of
        Inl e \<Rightarrow> Inl (LoadCertificates e)
      | Inr certDERs \<Rightarrow>
          if length certDERs = 0 then Inl NoCertificatesFound
          else
            (case loadPrivateKeyPKCS8DER L fs s ''private_key.pem'' of
               Inl e \<Rightarrow> Inl (LoadPrivateKey e)
             | Inr keyDER \<Rightarrow>
                 (case loadPEMDERs L fs s ''ca_certificates.pem'' of
                    Inl e \<Rightarrow> Inl (LoadCACertificates e)
                  | Inr caDERs \<Rightarrow>
                      (case x509_ParseCertificate L (hd certDERs) of
                         Inl e \<Rightarrow> Inl (ParseLeafFailed e)
                       | Inr leaf \<Rightarrow>
                           if length (URIs leaf) = 0 then Inl NoURISANs
                           else Inr \<lparr>Svids =
                             [\<lparr>SpiffeId = URL_String (hd (URIs leaf)),
                               X509Svid = concatDERs certDERs,
                               X509SvidKey = keyDER,
                               Bundle = concatDERs caDERs\<rparr>]\<rparr>))))"

text \<open>
  The three nested loops of \<^verbatim>\<open>buildX509BundlesResponse\<close>, innermost first: the
  \<^verbatim>\<open>x5c\<close> entries of one key, the keys of one trust domain, and the trust domains. Each
  returns at the first base64 error.
\<close>

fun decodeX5C :: "stdlib \<Rightarrow> string \<Rightarrow> string list \<Rightarrow> bytes list \<Rightarrow> error + bytes list" where
  "decodeX5C L domain [] ders = Inr ders"
| "decodeX5C L domain (b64cert # cs) ders =
     (case base64_DecodeString L b64cert of
        Inl e \<Rightarrow> Inl (DecodeX5CFailed domain e)
      | Inr der \<Rightarrow> decodeX5C L domain cs (ders @ [der]))"

fun x509DomainDERs :: "stdlib \<Rightarrow> string \<Rightarrow> trustKey list \<Rightarrow> bytes list \<Rightarrow> error + bytes list" where
  "x509DomainDERs L domain [] ders = Inr ders"
| "x509DomainDERs L domain (key # keys) ders =
     (if Use key \<noteq> ''x509-svid'' then x509DomainDERs L domain keys ders
      else
        (case decodeX5C L domain (X5C key) ders of
           Inl e \<Rightarrow> Inl e
         | Inr ders' \<Rightarrow> x509DomainDERs L domain keys ders'))"

fun x509FederatedBundles ::
  "stdlib \<Rightarrow> string \<Rightarrow> (string \<times> trustDomainEntry) list \<Rightarrow> (string \<rightharpoonup> bytes)
     \<Rightarrow> error + (string \<rightharpoonup> bytes)" where
  "x509FederatedBundles L localTD [] bundles = Inr bundles"
| "x509FederatedBundles L localTD ((domain, entry) # tds) bundles =
     (let tdKey = ''spiffe://'' @ domain in
      if tdKey = localTD then x509FederatedBundles L localTD tds bundles
      else
        (case x509DomainDERs L domain (Keys entry) [] of
           Inl e \<Rightarrow> Inl e
         | Inr ders \<Rightarrow>
             x509FederatedBundles L localTD tds
               (if length ders > 0 then bundles(tdKey \<mapsto> concatDERs ders) else bundles)))"

definition buildX509BundlesResponse :: "stdlib \<Rightarrow> filesystem \<Rightarrow> ShimServer \<Rightarrow> error + X509BundlesResponse" where
  "buildX509BundlesResponse L fs s =
     (case loadPEMDERs L fs s ''certificates.pem'' of
        Inl e \<Rightarrow> Inl (LoadCertificates e)
      | Inr certDERs \<Rightarrow>
          if length certDERs = 0 then Inl NoCertificatesFound
          else
            (case x509_ParseCertificate L (hd certDERs) of
               Inl e \<Rightarrow> Inl (ParseLeafFailed e)
             | Inr leaf \<Rightarrow>
                 if length (URIs leaf) = 0 then Inl NoURISANs
                 else
                   (let localTD = ''spiffe://'' @ URL_Host (hd (URIs leaf)) in
                    case loadPEMDERs L fs s ''ca_certificates.pem'' of
                      Inl e \<Rightarrow> Inl (LoadCACertificates e)
                    | Inr caDERs \<Rightarrow>
                        (case loadTrustBundles L fs s of
                           Inl e \<Rightarrow> Inl (LoadTrustBundles e)
                         | Inr tb \<Rightarrow>
                             (case x509FederatedBundles L localTD (TrustDomains tb)
                                     (Map.empty(localTD \<mapsto> concatDERs caDERs)) of
                                Inl e \<Rightarrow> Inl e
                              | Inr bundles \<Rightarrow> Inr \<lparr>X509_Bundles = bundles\<rparr>)))))"

text \<open>The two loops of \<^verbatim>\<open>buildJWTBundlesResponse\<close>: the keys of one domain, and the domains.\<close>

fun jwtDomainKeys :: "stdlib \<Rightarrow> string \<Rightarrow> trustKey list \<Rightarrow> bytes list \<Rightarrow> error + bytes list" where
  "jwtDomainKeys L domain [] keys = Inr keys"
| "jwtDomainKeys L domain (key # ks) keys =
     (if Use key \<noteq> ''jwt-svid'' then jwtDomainKeys L domain ks keys
      else
        (case json_Marshal_trustKey L key of
           Inl e \<Rightarrow> Inl (MarshalJWTKeyFailed domain e)
         | Inr b \<Rightarrow> jwtDomainKeys L domain ks (keys @ [b])))"

fun jwtBundles ::
  "stdlib \<Rightarrow> (string \<times> trustDomainEntry) list \<Rightarrow> (string \<rightharpoonup> bytes)
     \<Rightarrow> error + (string \<rightharpoonup> bytes)" where
  "jwtBundles L [] bundles = Inr bundles"
| "jwtBundles L ((domain, entry) # tds) bundles =
     (case jwtDomainKeys L domain (Keys entry) [] of
        Inl e \<Rightarrow> Inl e
      | Inr keys \<Rightarrow>
          if length keys = 0 then jwtBundles L tds bundles
          else
            (case json_Marshal_jwks L keys of
               Inl e \<Rightarrow> Inl (MarshalJWKSFailed domain e)
             | Inr jwksJSON \<Rightarrow>
                 jwtBundles L tds (bundles(''spiffe://'' @ domain \<mapsto> jwksJSON))))"

definition buildJWTBundlesResponse :: "stdlib \<Rightarrow> filesystem \<Rightarrow> ShimServer \<Rightarrow> error + JWTBundlesResponse" where
  "buildJWTBundlesResponse L fs s =
     (case loadTrustBundles L fs s of
        Inl e \<Rightarrow> Inl (LoadTrustBundles e)
      | Inr tb \<Rightarrow>
          (case jwtBundles L (TrustDomains tb) Map.empty of
             Inl e \<Rightarrow> Inl e
           | Inr bundles \<Rightarrow> Inr \<lparr>JWT_Bundles = bundles\<rparr>))"

section \<open>Broadcast hub\<close>

text \<open>
  A buffered \<^verbatim>\<open>chan struct{}\<close> carries no data: its state is its capacity and the number of
  elements waiting in its buffer. A send can proceed only when the buffer has room;
  otherwise a plain send would block (\<open>None\<close>). A \<^verbatim>\<open>select\<close> with a \<^verbatim>\<open>default\<close> branch
  takes the default branch instead and leaves the channel as it is.
\<close>

record chan =
  chan_cap :: nat
  chan_len :: nat

definition make_chan :: "nat \<Rightarrow> chan" where
  "make_chan n = \<lparr>chan_cap = n, chan_len = 0\<rparr>"

definition chan_send :: "chan \<Rightarrow> chan option" where
  "chan_send ch =
     (if chan_len ch < chan_cap ch then Some (ch\<lparr>chan_len := chan_len ch + 1\<rparr>) else None)"

definition chan_recv :: "chan \<Rightarrow> chan option" where
  "chan_recv ch =
     (if chan_len ch > 0 then Some (ch\<lparr>chan_len := chan_len ch - 1\<rparr>) else None)"

definition select_send_default :: "chan \<Rightarrow> chan" where
  "select_send_default ch = (case chan_send ch of Some ch' \<Rightarrow> ch' | None \<Rightarrow> ch)"

text \<open>
  The broadcaster. Go's \<^verbatim>\<open>int\<close> has 64 bits on the platforms the image is built for, and
  \<^verbatim>\<open>b.next++\<close> wraps around. Every method holds the mutex from entry to return, so each
  is one atomic step on the state. Each channel is reachable only through its entry of
  \<^verbatim>\<open>subs\<close> and through the one session that subscribed, so the map holds the channels'
  states.
\<close>

type_synonym sub_id = "64 word"

record broadcaster =
  subs :: "sub_id \<rightharpoonup> chan"
  next_sub :: sub_id

definition newBroadcaster :: broadcaster where
  "newBroadcaster = \<lparr>subs = Map.empty, next_sub = 0\<rparr>"

definition subscribe :: "broadcaster \<Rightarrow> sub_id \<times> broadcaster" where
  "subscribe b =
     (let sid = next_sub b;
          ch = make_chan 1
      in (sid, b\<lparr>next_sub := next_sub b + 1, subs := (subs b)(sid \<mapsto> ch)\<rparr>))"

definition unsubscribe :: "broadcaster \<Rightarrow> sub_id \<Rightarrow> broadcaster" where
  "unsubscribe b sid = b\<lparr>subs := (subs b)(sid := None)\<rparr>"

text \<open>
  \<^verbatim>\<open>broadcast\<close> runs the same \<^verbatim>\<open>select\<close> on every channel of the map; the iterations
  touch different channels, so their order does not matter.
\<close>

definition broadcast :: "broadcaster \<Rightarrow> broadcaster" where
  "broadcast b = b\<lparr>subs := (\<lambda>sid. map_option select_send_default (subs b sid))\<rparr>"

text \<open>
  A session takes the pending notification from its channel (\<^verbatim>\<open><-rotated\<close>); on an empty
  channel the receive does not happen.
\<close>

definition receive :: "broadcaster \<Rightarrow> sub_id \<Rightarrow> broadcaster" where
  "receive b sid =
     (case subs b sid of
        None \<Rightarrow> b
      | Some ch \<Rightarrow>
          (case chan_recv ch of
             None \<Rightarrow> b
           | Some ch' \<Rightarrow> b\<lparr>subs := (subs b)(sid \<mapsto> ch')\<rparr>))"

text \<open>The hub's history: any interleaving of the four operations, from the new hub.\<close>

datatype hub_op = Subscribe | Unsubscribe sub_id | Broadcast | Receive sub_id

fun hub_step :: "broadcaster \<Rightarrow> hub_op \<Rightarrow> broadcaster" where
  "hub_step b Subscribe = snd (subscribe b)"
| "hub_step b (Unsubscribe sid) = unsubscribe b sid"
| "hub_step b Broadcast = broadcast b"
| "hub_step b (Receive sid) = receive b sid"

definition hub_run :: "hub_op list \<Rightarrow> broadcaster" where
  "hub_run ops = foldl hub_step newBroadcaster ops"

section \<open>Session handler\<close>

text \<open>
  The three streaming handlers are the same code around three builders. A session is
  driven by what its \<^verbatim>\<open>select\<close> receives: the client's cancellation, or a rotation signal,
  with the files as they are when the handler rebuilds and with the result of
  \<^verbatim>\<open>stream.Send\<close> should the handler call it (\<open>None\<close>: sent).
\<close>

datatype payload =
    SVIDPayload X509SVIDResponse
  | X509BundlesPayload X509BundlesResponse
  | JWTBundlesPayload JWTBundlesResponse

datatype code = Internal | Unimplemented

datatype rpc_return = ReturnNil | ReturnStatus code error | ReturnSendError string

datatype event = CtxDone | Rotated filesystem "string option"

datatype effect = Send payload | Log string error | BcastSubscribe | BcastUnsubscribe

datatype session = Live | Returned rpc_return

type_synonym builder = "filesystem \<Rightarrow> error + payload"

definition session_start :: "builder \<Rightarrow> filesystem \<Rightarrow> string option \<Rightarrow> effect list \<times> session" where
  "session_start build fs0 send0 =
     (case build fs0 of
        Inl err \<Rightarrow> ([], Returned (ReturnStatus Internal err))
      | Inr resp \<Rightarrow>
          (case send0 of
             Some e \<Rightarrow> ([], Returned (ReturnSendError e))
           | None \<Rightarrow> ([Send resp, BcastSubscribe], Live)))"

fun session_step :: "builder \<Rightarrow> string \<Rightarrow> session \<Rightarrow> event \<Rightarrow> effect list \<times> session" where
  "session_step build name Live CtxDone = ([BcastUnsubscribe], Returned ReturnNil)"
| "session_step build name Live (Rotated fs snd_result) =
     (case build fs of
        Inl err \<Rightarrow> ([Log name err], Live)
      | Inr resp \<Rightarrow>
          (case snd_result of
             Some e \<Rightarrow> ([BcastUnsubscribe], Returned (ReturnSendError e))
           | None \<Rightarrow> ([Send resp], Live)))"
| "session_step build name (Returned r) ev = ([], Returned r)"

fun session_run :: "builder \<Rightarrow> string \<Rightarrow> session \<Rightarrow> event list \<Rightarrow> effect list \<times> session" where
  "session_run build name st [] = ([], st)"
| "session_run build name st (ev # evs) =
     (let (effs1, st1) = session_step build name st ev;
          (effs2, st2) = session_run build name st1 evs
      in (effs1 @ effs2, st2))"

definition fetch_stream ::
  "builder \<Rightarrow> string \<Rightarrow> filesystem \<Rightarrow> string option \<Rightarrow> event list \<Rightarrow> effect list \<times> session" where
  "fetch_stream build name fs0 send0 evs =
     (let (effs0, st0) = session_start build fs0 send0;
          (effs1, st1) = session_run build name st0 evs
      in (effs0 @ effs1, st1))"

definition svid_builder :: "stdlib \<Rightarrow> ShimServer \<Rightarrow> builder" where
  "svid_builder L s fs = map_sum id SVIDPayload (buildX509SVIDResponse L fs s)"

definition x509_bundles_builder :: "stdlib \<Rightarrow> ShimServer \<Rightarrow> builder" where
  "x509_bundles_builder L s fs = map_sum id X509BundlesPayload (buildX509BundlesResponse L fs s)"

definition jwt_bundles_builder :: "stdlib \<Rightarrow> ShimServer \<Rightarrow> builder" where
  "jwt_bundles_builder L s fs = map_sum id JWTBundlesPayload (buildJWTBundlesResponse L fs s)"

definition FetchX509SVID ::
  "stdlib \<Rightarrow> ShimServer \<Rightarrow> filesystem \<Rightarrow> string option \<Rightarrow> event list \<Rightarrow> effect list \<times> session" where
  "FetchX509SVID L s = fetch_stream (svid_builder L s) ''FetchX509SVID''"

definition FetchX509Bundles ::
  "stdlib \<Rightarrow> ShimServer \<Rightarrow> filesystem \<Rightarrow> string option \<Rightarrow> event list \<Rightarrow> effect list \<times> session" where
  "FetchX509Bundles L s = fetch_stream (x509_bundles_builder L s) ''FetchX509Bundles''"

definition FetchJWTBundles ::
  "stdlib \<Rightarrow> ShimServer \<Rightarrow> filesystem \<Rightarrow> string option \<Rightarrow> event list \<Rightarrow> effect list \<times> session" where
  "FetchJWTBundles L s = fetch_stream (jwt_bundles_builder L s) ''FetchJWTBundles''"

section \<open>A small standard library for concrete runs\<close>

text \<open>
  The theorems below hold for every standard library. To run the server on concrete
  files, the following stand-ins are used. A PEM block is written \<^verbatim>\<open>[TYPE|contents]\<close>;
  it is malformed when its contents hold the character \<^verbatim>\<open>!\<close> (not base64), when it is
  not closed, or when its type line holds another \<^verbatim>\<open>[\<close>. Like \<^verbatim>\<open>pem.Decode\<close>, the decoder
  searches the input for the first well-formed block, passing over any other text and
  over malformed blocks, and returns no block and the whole input when there is none. A
  certificate is \<^verbatim>\<open>cert:HOST\<close> with the one URI name \<^verbatim>\<open>spiffe://HOST/workload\<close>, or
  \<^verbatim>\<open>cert:\<close> with no URI name; a SEC1 key is \<^verbatim>\<open>ec:K\<close>, a PKCS#1 key \<^verbatim>\<open>rsa:K\<close>, and their
  PKCS#8 forms as the library writes them are \<^verbatim>\<open>pkcs8:ec:K\<close> and \<^verbatim>\<open>pkcs8:rsa:K\<close>; base64
  text decodes to itself unless it holds the character \<^verbatim>\<open>!\<close>; and the JSON reader knows
  the documents named \<^verbatim>\<open>doc-federated\<close>, \<^verbatim>\<open>doc-jwt\<close>, \<^verbatim>\<open>doc-bad-x5c\<close> and
  \<^verbatim>\<open>doc-empty-x5c\<close>.
\<close>

definition demo_pem_block :: "bytes \<Rightarrow> (pem_Block \<times> bytes) option" where
  "demo_pem_block cs =
     (let ty = takeWhile (\<lambda>x. x \<noteq> CHR ''|'') cs;
          r1 = dropWhile (\<lambda>x. x \<noteq> CHR ''|'') cs
      in if r1 = [] \<or> CHR ''['' \<in> set ty then None
         else
           (let body = takeWhile (\<lambda>x. x \<noteq> CHR '']'') (tl r1);
                r2 = dropWhile (\<lambda>x. x \<noteq> CHR '']'') (tl r1)
            in if r2 = [] \<or> CHR ''!'' \<in> set body then None
               else Some (\<lparr>Block_Type = ty, Block_Headers = [], Block_Bytes = body\<rparr>, tl r2)))"

fun demo_pem_scan :: "bytes \<Rightarrow> (pem_Block \<times> bytes) option" where
  "demo_pem_scan [] = None"
| "demo_pem_scan (c # cs) =
     (if c = CHR ''['' then
        (case demo_pem_block cs of
           Some r \<Rightarrow> Some r
         | None \<Rightarrow> demo_pem_scan cs)
      else demo_pem_scan cs)"

definition demo_pem_fun :: "bytes \<Rightarrow> pem_Block option \<times> bytes" where
  "demo_pem_fun d =
     (case demo_pem_scan d of
        None \<Rightarrow> (None, d)
      | Some (b, r) \<Rightarrow> (Some b, r))"

definition demo_pem_Decode :: pem_decoder where
  "demo_pem_Decode = Abs_pem_decoder demo_pem_fun"

definition demo_ParseCertificate :: "bytes \<Rightarrow> string + certificate" where
  "demo_ParseCertificate d =
     (if take 5 d = ''cert:'' then
        Inr \<lparr>URIs =
          (if drop 5 d = [] then []
           else [\<lparr>URL_String = ''spiffe://'' @ drop 5 d @ ''/workload'', URL_Host = drop 5 d\<rparr>])\<rparr>
      else Inl ''x509: malformed certificate'')"

definition demo_ParseECPrivateKey :: "bytes \<Rightarrow> string + private_key" where
  "demo_ParseECPrivateKey d =
     (if take 3 d = ''ec:'' then Inr (ECDSA_PrivateKey (drop 3 d))
      else Inl ''x509: failed to parse EC private key'')"

definition demo_ParsePKCS1PrivateKey :: "bytes \<Rightarrow> string + private_key" where
  "demo_ParsePKCS1PrivateKey d =
     (if take 4 d = ''rsa:'' then Inr (RSA_PrivateKey (drop 4 d))
      else Inl ''x509: failed to parse RSA private key'')"

fun demo_MarshalPKCS8PrivateKey :: "private_key \<Rightarrow> string + bytes" where
  "demo_MarshalPKCS8PrivateKey (ECDSA_PrivateKey k) = Inr (''pkcs8:ec:'' @ k)"
| "demo_MarshalPKCS8PrivateKey (RSA_PrivateKey k) = Inr (''pkcs8:rsa:'' @ k)"

definition demo_DecodeString :: "string \<Rightarrow> string + bytes" where
  "demo_DecodeString c =
     (if CHR ''!'' \<in> set c then Inl ''illegal base64 data'' else Inr c)"

definition demo_key :: "string \<Rightarrow> string list \<Rightarrow> trustKey" where
  "demo_key u certs =
     \<lparr>Use = u, Kty = ''EC'', Crv = ''P-256'', KeyX = ''x'', KeyY = ''y'', X5C = certs\<rparr>"

definition doc_federated :: trustBundlesFile where
  "doc_federated = \<lparr>TrustDomains =
     [(''example.org'',
         \<lparr>Keys = [demo_key ''x509-svid'' [''LOCALROOT'']], SpiffeSequence = 1\<rparr>),
      (''other.org'',
         \<lparr>Keys = [demo_key ''x509-svid'' [''OTHER1'', ''OTHER2''], demo_key ''jwt-svid'' []],
          SpiffeSequence = 7\<rparr>),
      (''jwtonly.org'',
         \<lparr>Keys = [demo_key ''jwt-svid'' []], SpiffeSequence = 2\<rparr>)]\<rparr>"

definition doc_jwt :: trustBundlesFile where
  "doc_jwt = \<lparr>TrustDomains =
     [(''other.org'',
         \<lparr>Keys = [demo_key ''x509-svid'' [''OTHER1''], demo_key ''jwt-svid'' [],
                  demo_key ''unknown-use'' []],
          SpiffeSequence = 3\<rparr>),
      (''x509only.org'',
         \<lparr>Keys = [demo_key ''x509-svid'' [''ROOT'']], SpiffeSequence = 4\<rparr>)]\<rparr>"

definition doc_bad_x5c :: trustBundlesFile where
  "doc_bad_x5c = \<lparr>TrustDomains =
     [(''good.org'',
         \<lparr>Keys = [demo_key ''x509-svid'' [''GOOD'']], SpiffeSequence = 1\<rparr>),
      (''bad.org'',
         \<lparr>Keys = [demo_key ''x509-svid'' [''not!base64'']], SpiffeSequence = 1\<rparr>)]\<rparr>"

definition doc_empty_x5c :: trustBundlesFile where
  "doc_empty_x5c = \<lparr>TrustDomains =
     [(''emptyder.org'',
         \<lparr>Keys = [demo_key ''x509-svid'' [[]]], SpiffeSequence = 1\<rparr>)]\<rparr>"

definition demo_Unmarshal :: "bytes \<Rightarrow> string + trustBundlesFile" where
  "demo_Unmarshal d =
     (if d = ''doc-federated'' then Inr doc_federated
      else if d = ''doc-jwt'' then Inr doc_jwt
      else if d = ''doc-bad-x5c'' then Inr doc_bad_x5c
      else if d = ''doc-empty-x5c'' then Inr doc_empty_x5c
      else Inl ''invalid character'')"

definition demo_Marshal_trustKey :: "trustKey \<Rightarrow> string + bytes" where
  "demo_Marshal_trustKey k = Inr (''{use:'' @ Use k @ '',kty:'' @ Kty k @ ''}'')"

definition demo_Marshal_jwks :: "bytes list \<Rightarrow> string + bytes" where
  "demo_Marshal_jwks ks = Inr (''{keys:['' @ concat ks @ '']}'')"

definition demo_lib :: stdlib where
  "demo_lib =
     \<lparr>filepath_Join = (\<lambda>dir name. dir @ ''/'' @ name),
      pem_Decode = demo_pem_Decode,
      x509_ParseCertificate = demo_ParseCertificate,
      x509_ParseECPrivateKey = demo_ParseECPrivateKey,
      x509_ParsePKCS1PrivateKey = demo_ParsePKCS1PrivateKey,
      x509_MarshalPKCS8PrivateKey = demo_MarshalPKCS8PrivateKey,
      base64_DecodeString = demo_DecodeString,
      json_Unmarshal = demo_Unmarshal,
      json_Marshal_trustKey = demo_Marshal_trustKey,
      json_Marshal_jwks = demo_Marshal_jwks\<rparr>"

definition demo_server :: ShimServer where
  "demo_server = \<lparr>credsDir = ''/creds''\<rparr>"

text \<open>
  \<^verbatim>\<open>x509.ParsePKCS8PrivateKey\<close>, which the server never calls, says which bytes are a
  PKCS#8 encoding of which key. PKCS#8 has optional fields, so one key has several
  encodings; the stand-in accepts a second form, \<^verbatim>\<open>pkcs8+attr:...\<close>, of each key.
\<close>

definition demo_ParsePKCS8PrivateKey :: "bytes \<Rightarrow> string + private_key" where
  "demo_ParsePKCS8PrivateKey d =
     (if take 9 d = ''pkcs8:ec:'' then Inr (ECDSA_PrivateKey (drop 9 d))
      else if take 10 d = ''pkcs8:rsa:'' then Inr (RSA_PrivateKey (drop 10 d))
      else if take 14 d = ''pkcs8+attr:ec:'' then Inr (ECDSA_PrivateKey (drop 14 d))
      else if take 15 d = ''pkcs8+attr:rsa:'' then Inr (RSA_PrivateKey (drop 15 d))
      else Inl ''x509: failed to parse private key'')"

section \<open>Notions used to state the properties\<close>

text \<open>
  \<open>decodes_chain dec data bs rest\<close>: calling the decoder again and again from \<open>data\<close>
  yields the blocks \<open>bs\<close>, in this order, and leaves \<open>rest\<close>.
  \<open>decoding_stops dec rest\<close>: at \<open>rest\<close> the input is used up or the decoder finds no
  block.
\<close>

fun decodes_chain :: "pem_decoder \<Rightarrow> bytes \<Rightarrow> pem_Block list \<Rightarrow> bytes \<Rightarrow> bool" where
  "decodes_chain dec data [] rest = (rest = data)"
| "decodes_chain dec data (b # bs) rest =
     (data \<noteq> [] \<and> fst (Rep_pem_decoder dec data) = Some b
      \<and> decodes_chain dec (snd (Rep_pem_decoder dec data)) bs rest)"

definition decoding_stops :: "pem_decoder \<Rightarrow> bytes \<Rightarrow> bool" where
  "decoding_stops dec rest = (rest = [] \<or> fst (Rep_pem_decoder dec rest) = None)"

text \<open>
  \<open>relabel_decoder f dec\<close> is the decoder \<open>dec\<close> with the type label of every block it
  returns replaced by \<open>f\<close> of that label.
\<close>

definition relabel_fun ::
  "(string \<Rightarrow> string) \<Rightarrow> (bytes \<Rightarrow> pem_Block option \<times> bytes) \<Rightarrow> bytes \<Rightarrow> pem_Block option \<times> bytes" where
  "relabel_fun f g d =
     (case g d of
        (None, r) \<Rightarrow> (None, r)
      | (Some b, r) \<Rightarrow> (Some (b\<lparr>Block_Type := f (Block_Type b)\<rparr>), r))"

definition relabel_decoder :: "(string \<Rightarrow> string) \<Rightarrow> pem_decoder \<Rightarrow> pem_decoder" where
  "relabel_decoder f dec = Abs_pem_decoder (relabel_fun f (Rep_pem_decoder dec))"

text \<open>
  The hub's invariant: every registered channel has capacity one and holds at most one
  pending notification.
\<close>

definition hub_inv :: "broadcaster \<Rightarrow> bool" where
  "hub_inv b = (\<forall>sid ch. subs b sid = Some ch \<longrightarrow> chan_cap ch = 1 \<and> chan_len ch \<le> 1)"

text \<open>
  The base64 entries of the \<^verbatim>\<open>x509-svid\<close> keys of a trust domain, in order; its
  \<^verbatim>\<open>jwt-svid\<close> keys; and the entry with every other key removed.
\<close>

definition x509_svid_certs :: "trustDomainEntry \<Rightarrow> string list" where
  "x509_svid_certs e = concat (map X5C (filter (\<lambda>k. Use k = ''x509-svid'') (Keys e)))"

definition jwt_svid_keys :: "trustDomainEntry \<Rightarrow> trustKey list" where
  "jwt_svid_keys e = filter (\<lambda>k. Use k = ''jwt-svid'') (Keys e)"

definition jwt_only :: "trustDomainEntry \<Rightarrow> trustDomainEntry" where
  "jwt_only e = e\<lparr>Keys := jwt_svid_keys e\<rparr>"

section \<open>Concrete inputs\<close>

text \<open>
  Credential directories in the notation of the stand-in library. In the first one
  \<^verbatim>\<open>certificates.pem\<close> holds a certificate, then a private-key block, then text that is
  no block, then one more block; the CA bundle holds a certificate and a block of another
  type; and the trust-domain map names the local domain again.
\<close>

definition demo_fs1 :: filesystem where
  "demo_fs1 = map_of
     [(''/creds/certificates.pem'', ''[CERTIFICATE|cert:example.org][PRIVATE KEY|pkcs8:ec:K1]junk[CERTIFICATE|late]''),
      (''/creds/private_key.pem'', ''[EC PRIVATE KEY|ec:K1]''),
      (''/creds/ca_certificates.pem'', ''[CERTIFICATE|LOCALCA][X509 CRL|crl]''),
      (''/creds/trust_bundles.json'', ''doc-federated'')]"

definition demo_fs_garbage :: filesystem where
  "demo_fs_garbage = map_of
     [(''/creds/certificates.pem'', ''no certificate here''),
      (''/creds/private_key.pem'', ''[PRIVATE KEY|garbage]''),
      (''/creds/ca_certificates.pem'', ''[CERTIFICATE|LOCALCA]''),
      (''/creds/trust_bundles.json'', ''doc-jwt'')]"

definition demo_fs_no_certs :: filesystem where
  "demo_fs_no_certs = map_of [(''/creds/trust_bundles.json'', ''doc-jwt'')]"

definition demo_fs_bad_x5c :: filesystem where
  "demo_fs_bad_x5c = map_of
     [(''/creds/certificates.pem'', ''[CERTIFICATE|cert:example.org]''),
      (''/creds/ca_certificates.pem'', ''[CERTIFICATE|LOCALCA]''),
      (''/creds/trust_bundles.json'', ''doc-bad-x5c'')]"

definition demo_fs_malformed :: filesystem where
  "demo_fs_malformed = map_of
     [(''/creds/certificates.pem'',
         ''[CERTIFICATE|cert:example.org][CERTIFICATE|bad!][CERTIFICATE|after]'')]"

definition demo_fs_empty_ca :: filesystem where
  "demo_fs_empty_ca = map_of
     [(''/creds/certificates.pem'', ''[CERTIFICATE|cert:example.org]''),
      (''/creds/private_key.pem'', ''[PRIVATE KEY|pkcs8:ec:K1]''),
      (''/creds/ca_certificates.pem'', ''no certificate here''),
      (''/creds/trust_bundles.json'', ''doc-jwt'')]"

definition demo_fs_empty_x5c :: filesystem where
  "demo_fs_empty_x5c = map_of
     [(''/creds/certificates.pem'', ''[CERTIFICATE|cert:example.org]''),
      (''/creds/ca_certificates.pem'', ''[CERTIFICATE|LOCALCA]''),
      (''/creds/trust_bundles.json'', ''doc-empty-x5c'')]"

definition demo_key_fs :: "bytes \<Rightarrow> filesystem" where
  "demo_key_fs content = map_of [(''/creds/private_key.pem'', content)]"

text \<open>The responses built from the first directory and from the one without certificates.\<close>

definition demo_svid1 :: X509SVIDResponse where
  "demo_svid1 = \<lparr>Svids = [\<lparr>SpiffeId = ''spiffe://example.org/workload'',
      X509Svid = ''cert:example.orgpkcs8:ec:K1late'', X509SvidKey = ''pkcs8:ec:K1'',
      Bundle = ''LOCALCAcrl''\<rparr>]\<rparr>"

definition demo_x509_bundles :: X509BundlesResponse where
  "demo_x509_bundles = \<lparr>X509_Bundles =
     [''spiffe://example.org'' \<mapsto> ''LOCALCAcrl'', ''spiffe://other.org'' \<mapsto> ''OTHER1OTHER2'']\<rparr>"

definition demo_jwt_bundles :: JWTBundlesResponse where
  "demo_jwt_bundles = \<lparr>JWT_Bundles =
     [''spiffe://other.org'' \<mapsto> ''{keys:[{use:jwt-svid,kty:EC}]}'']\<rparr>"

text \<open>A certificate parser that accepts the leaf of the first directory and nothing else.\<close>

definition leaf_only_parser :: "bytes \<Rightarrow> string + certificate" where
  "leaf_only_parser d =
     (if d = ''cert:example.org'' then demo_ParseCertificate d else Inl ''never parsed'')"

section \<open>Basic facts\<close>

lemma demo_pem_block_shorter:
  assumes "demo_pem_block cs = Some (b, r)"
  shows "length r < length cs"
proof -
  define r1 where "r1 = dropWhile (\<lambda>x. x \<noteq> CHR ''|'') cs"
  define r2 where "r2 = dropWhile (\<lambda>x. x \<noteq> CHR '']'') (tl r1)"
  from assms have r: "r = tl r2" and ne: "r2 \<noteq> []"
    by (auto simp: demo_pem_block_def Let_def r1_def r2_def split: if_splits)
  have "length r2 \<le> length (tl r1)"
    unfolding r2_def by (rule length_dropWhile_le)
  moreover have "length r1 \<le> length cs"
    unfolding r1_def by (rule length_dropWhile_le)
  moreover have "length r < length r2"
    using r ne by (cases r2) auto
  moreover from assms have "r1 \<noteq> []"
    by (auto simp: demo_pem_block_def Let_def r1_def split: if_splits)
  ultimately show ?thesis by (cases r1) auto
qed

lemma demo_pem_scan_shorter:
  "demo_pem_scan d = Some (b, r) \<Longrightarrow> length r < length d"
proof (induction d)
  case Nil
  then show ?case by simp
next
  case (Cons c cs)
  show ?case
  proof (cases "c = CHR ''['' \<and> demo_pem_block cs \<noteq> None")
    case True
    with Cons.prems have "demo_pem_block cs = Some (b, r)" by auto
    then have "length r < length cs" by (rule demo_pem_block_shorter)
    then show ?thesis by simp
  next
    case False
    with Cons.prems have "demo_pem_scan cs = Some (b, r)"
      by (auto split: if_splits option.splits)
    from Cons.IH [OF this] show ?thesis by simp
  qed
qed

lemma demo_pem_fun_shorter:
  "demo_pem_fun d = (Some b, r) \<Longrightarrow> length r < length d"
  by (auto simp: demo_pem_fun_def split: option.splits dest: demo_pem_scan_shorter)

lemma Rep_demo_pem_Decode: "Rep_pem_decoder demo_pem_Decode = demo_pem_fun"
  unfolding demo_pem_Decode_def
  by (rule Abs_pem_decoder_inverse) (auto dest: demo_pem_fun_shorter)

lemma concatDERs_concat: "concatDERs ders = concat ders"
  by (induction ders) auto

lemma loop_Nil: "loadPEMDERs_loop dec [] ders = ders"
  by (subst loadPEMDERs_loop.simps) simp

lemma loop_None: "fst (Rep_pem_decoder dec data) = None \<Longrightarrow> loadPEMDERs_loop dec data ders = ders"
  by (subst loadPEMDERs_loop.simps) (auto split: prod.splits)

lemma loop_Some:
  "data \<noteq> [] \<Longrightarrow> Rep_pem_decoder dec data = (Some b, rest) \<Longrightarrow>
   loadPEMDERs_loop dec data ders = loadPEMDERs_loop dec rest (ders @ [Block_Bytes b])"
  by (subst loadPEMDERs_loop.simps) simp

lemma loop_acc: "loadPEMDERs_loop dec data ders = ders @ loadPEMDERs_loop dec data []"
proof (induction "length data" arbitrary: data ders rule: less_induct)
  case less
  show ?case
  proof (cases "data = [] \<or> fst (Rep_pem_decoder dec data) = None")
    case True
    then show ?thesis by (auto simp: loop_Nil loop_None)
  next
    case False
    then obtain b rest where r: "Rep_pem_decoder dec data = (Some b, rest)" and ne: "data \<noteq> []"
      by (cases "Rep_pem_decoder dec data") auto
    have shorter: "length rest < length data"
      using r by (rule pem_decoder_shorter)
    have "loadPEMDERs_loop dec data ders = loadPEMDERs_loop dec rest (ders @ [Block_Bytes b])"
      using ne r by (rule loop_Some)
    also have "\<dots> = (ders @ [Block_Bytes b]) @ loadPEMDERs_loop dec rest []"
      using shorter by (rule less)
    also have "\<dots> = ders @ ([Block_Bytes b] @ loadPEMDERs_loop dec rest [])"
      by simp
    also have "[Block_Bytes b] @ loadPEMDERs_loop dec rest [] = loadPEMDERs_loop dec rest ([] @ [Block_Bytes b])"
      using less [OF shorter, of "[Block_Bytes b]"] by simp
    also have "\<dots> = loadPEMDERs_loop dec data []"
      using loop_Some [OF ne r, of "[]"] by simp
    finally show ?thesis .
  qed
qed

lemma loop_chain:
  "decodes_chain dec data bs rest \<Longrightarrow> decoding_stops dec rest \<Longrightarrow>
   loadPEMDERs_loop dec data [] = map Block_Bytes bs"
proof (induction bs arbitrary: data)
  case Nil
  then show ?case
    by (auto simp: decoding_stops_def loop_Nil loop_None)
next
  case (Cons b bs)
  obtain rest' where r: "Rep_pem_decoder dec data = (Some b, rest')"
    using Cons.prems(1) by (cases "Rep_pem_decoder dec data") auto
  have "loadPEMDERs_loop dec data [] = loadPEMDERs_loop dec rest' [Block_Bytes b]"
    using Cons.prems(1) r loop_Some [of data dec b rest' "[]"] by simp
  also have "\<dots> = [Block_Bytes b] @ loadPEMDERs_loop dec rest' []"
    by (rule loop_acc)
  also have "loadPEMDERs_loop dec rest' [] = map Block_Bytes bs"
    using Cons.IH [of rest'] Cons.prems r by simp
  finally show ?case by simp
qed

lemma chain_exists:
  "\<exists>bs rest. decodes_chain dec data bs rest \<and> decoding_stops dec rest"
proof (induction "length data" arbitrary: data rule: less_induct)
  case less
  show ?case
  proof (cases "decoding_stops dec data")
    case True
    then have "decodes_chain dec data [] data \<and> decoding_stops dec data" by simp
    then show ?thesis by blast
  next
    case False
    then obtain b rest' where r: "Rep_pem_decoder dec data = (Some b, rest')" and ne: "data \<noteq> []"
      by (cases "Rep_pem_decoder dec data") (auto simp: decoding_stops_def)
    from r have "length rest' < length data" by (rule pem_decoder_shorter)
    from less [OF this] obtain bs rest where
      "decodes_chain dec rest' bs rest" "decoding_stops dec rest" by blast
    then have "decodes_chain dec data (b # bs) rest \<and> decoding_stops dec rest"
      using r ne by simp
    then show ?thesis by blast
  qed
qed

lemmas demo_defs = demo_lib_def demo_server_def Rep_demo_pem_Decode demo_pem_fun_def demo_pem_block_def
  demo_ParseCertificate_def demo_ParseECPrivateKey_def demo_ParsePKCS1PrivateKey_def
  demo_DecodeString_def demo_Unmarshal_def demo_Marshal_trustKey_def demo_Marshal_jwks_def
  demo_key_def doc_federated_def doc_jwt_def doc_bad_x5c_def doc_empty_x5c_def

lemma Rep_relabel_decoder:
  "Rep_pem_decoder (relabel_decoder f dec) = relabel_fun f (Rep_pem_decoder dec)"
  unfolding relabel_decoder_def
  by (rule Abs_pem_decoder_inverse)
     (auto simp: relabel_fun_def split: prod.splits option.splits dest: pem_decoder_shorter)

lemma loop_relabel:
  "loadPEMDERs_loop (relabel_decoder f dec) data ders = loadPEMDERs_loop dec data ders"
proof (induction "length data" arbitrary: data ders rule: less_induct)
  case less
  show ?case
  proof (cases "data = [] \<or> fst (Rep_pem_decoder dec data) = None")
    case True
    then have "data = [] \<or> fst (Rep_pem_decoder (relabel_decoder f dec) data) = None"
      by (cases "Rep_pem_decoder dec data") (auto simp: Rep_relabel_decoder relabel_fun_def)
    with True show ?thesis
      by (auto simp: loop_Nil loop_None)
  next
    case False
    then obtain b rest where r: "Rep_pem_decoder dec data = (Some b, rest)" and ne: "data \<noteq> []"
      by (cases "Rep_pem_decoder dec data") auto
    have r': "Rep_pem_decoder (relabel_decoder f dec) data
        = (Some (b\<lparr>Block_Type := f (Block_Type b)\<rparr>), rest)"
      using r by (simp add: Rep_relabel_decoder relabel_fun_def)
    have shorter: "length rest < length data"
      using r by (rule pem_decoder_shorter)
    show ?thesis
      using loop_Some [OF ne r, of ders] loop_Some [OF ne r', of ders] less [OF shorter]
      by simp
  qed
qed

lemma session_run_Returned: "session_run build name (Returned r) evs = ([], Returned r)"
  by (induction evs) auto

lemma fetch_stream_initial_failure:
  "build fs0 = Inl err \<Longrightarrow>
   fetch_stream build name fs0 send0 evs = ([], Returned (ReturnStatus Internal err))"
  by (simp add: fetch_stream_def session_start_def session_run_Returned)

lemma builder_Inl:
  "svid_builder L s fs = Inl err \<longleftrightarrow> buildX509SVIDResponse L fs s = Inl err"
  "x509_bundles_builder L s fs = Inl err \<longleftrightarrow> buildX509BundlesResponse L fs s = Inl err"
  "jwt_bundles_builder L s fs = Inl err \<longleftrightarrow> buildJWTBundlesResponse L fs s = Inl err"
  by (auto simp: svid_builder_def x509_bundles_builder_def jwt_bundles_builder_def map_sum_def
      split: sum.splits)

lemma svid_fails_without_chain:
  assumes "fs (filepath_Join L (credsDir s) ''certificates.pem'') = None
     \<or> loadPEMDERs L fs s ''certificates.pem'' = Inr []
     \<or> (\<exists>ders e. loadPEMDERs L fs s ''certificates.pem'' = Inr ders \<and> ders \<noteq> []
           \<and> x509_ParseCertificate L (hd ders) = Inl e)"
  shows "\<exists>err. buildX509SVIDResponse L fs s = Inl err"
  using assms
  by (auto simp: buildX509SVIDResponse_def loadPEMDERs_def split: sum.splits option.splits)

lemma bundles_fail_without_chain:
  assumes "fs (filepath_Join L (credsDir s) ''certificates.pem'') = None
     \<or> loadPEMDERs L fs s ''certificates.pem'' = Inr []
     \<or> (\<exists>ders e. loadPEMDERs L fs s ''certificates.pem'' = Inr ders \<and> ders \<noteq> []
           \<and> x509_ParseCertificate L (hd ders) = Inl e)"
  shows "\<exists>err. buildX509BundlesResponse L fs s = Inl err"
  using assms
  by (auto simp: buildX509BundlesResponse_def loadPEMDERs_def split: sum.splits option.splits)

lemma session_run_live_failure:
  "build fs = Inl err \<Longrightarrow>
   session_run build name Live (Rotated fs sr # evs)
     = (Log name err # fst (session_run build name Live evs),
        snd (session_run build name Live evs))"
  by (simp add: split_beta)

lemma demo_svid1: "buildX509SVIDResponse demo_lib demo_fs1 demo_server = Inr demo_svid1"
  by (simp add: buildX509SVIDResponse_def loadPEMDERs_def loadPrivateKeyPKCS8DER_def demo_defs
      demo_fs1_def demo_svid1_def loadPEMDERs_loop.simps)

lemma demo_empty_fs:
  "buildX509SVIDResponse demo_lib Map.empty demo_server
     = Inl (LoadCertificates (ReadFailed ''certificates.pem''))"
  "buildX509BundlesResponse demo_lib Map.empty demo_server
     = Inl (LoadCertificates (ReadFailed ''certificates.pem''))"
  "buildJWTBundlesResponse demo_lib Map.empty demo_server
     = Inl (LoadTrustBundles (ReadFailed ''trust_bundles.json''))"
  by (simp_all add: buildX509SVIDResponse_def buildX509BundlesResponse_def
      buildJWTBundlesResponse_def loadPEMDERs_def loadTrustBundles_def)

lemma load_key_block:
  assumes "fs (filepath_Join L (credsDir s) name) = Some data"
    and "fst (Rep_pem_decoder (pem_Decode L) data) = Some b"
  shows "loadPrivateKeyPKCS8DER L fs s name =
     (if Block_Type b = ''PRIVATE KEY'' then Inr (Block_Bytes b)
      else if Block_Type b = ''EC PRIVATE KEY'' then
        (case x509_ParseECPrivateKey L (Block_Bytes b) of
           Inl e \<Rightarrow> Inl (ParseECFailed e)
         | Inr key \<Rightarrow>
             (case x509_MarshalPKCS8PrivateKey L key of
                Inl e \<Rightarrow> Inl (MarshalPKCS8Failed e)
              | Inr der \<Rightarrow> Inr der))
      else if Block_Type b = ''RSA PRIVATE KEY'' then
        (case x509_ParsePKCS1PrivateKey L (Block_Bytes b) of
           Inl e \<Rightarrow> Inl (ParseRSAFailed e)
         | Inr key \<Rightarrow>
             (case x509_MarshalPKCS8PrivateKey L key of
                Inl e \<Rightarrow> Inl (MarshalPKCS8Failed e)
              | Inr der \<Rightarrow> Inr der))
      else Inl (UnsupportedPEMType (Block_Type b) name))"
  using assms by (simp add: loadPrivateKeyPKCS8DER_def)

lemma demo_key_file:
  "demo_key_fs content (filepath_Join demo_lib (credsDir demo_server) ''private_key.pem'')
     = Some content"
  by (simp add: demo_key_fs_def demo_lib_def demo_server_def)

lemma decodeX5C_bad:
  "c \<in> set cs \<Longrightarrow> base64_DecodeString L c = Inl msg \<Longrightarrow> isl (decodeX5C L d cs ders)"
  by (induction cs arbitrary: ders) (auto split: sum.splits)

lemma x509DomainDERs_bad:
  "k \<in> set keys \<Longrightarrow> Use k = ''x509-svid'' \<Longrightarrow> c \<in> set (X5C k) \<Longrightarrow>
   base64_DecodeString L c = Inl msg \<Longrightarrow> isl (x509DomainDERs L d keys ders)"
proof (induction keys arbitrary: ders)
  case Nil
  then show ?case by simp
next
  case (Cons a keys)
  show ?case
  proof (cases "a = k")
    case True
    have "isl (decodeX5C L d (X5C k) ders)"
      using Cons.prems(3,4) by (rule decodeX5C_bad)
    with True Cons.prems(2) show ?thesis
      by (auto split: sum.splits)
  next
    case False
    with Cons.prems have "k \<in> set keys" by simp
    from Cons.IH [OF this Cons.prems(2,3,4)] show ?thesis
      by (auto split: sum.splits)
  qed
qed

lemma x509FederatedBundles_bad:
  "(d, e) \<in> set tds \<Longrightarrow> ''spiffe://'' @ d \<noteq> localTD \<Longrightarrow> k \<in> set (Keys e) \<Longrightarrow>
   Use k = ''x509-svid'' \<Longrightarrow> c \<in> set (X5C k) \<Longrightarrow> base64_DecodeString L c = Inl msg \<Longrightarrow>
   isl (x509FederatedBundles L localTD tds m)"
proof (induction tds arbitrary: m)
  case Nil
  then show ?case by simp
next
  case (Cons a tds)
  obtain d' e' where a: "a = (d', e')" by (cases a)
  show ?case
  proof (cases "a = (d, e)")
    case True
    have "isl (x509DomainDERs L d (Keys e) [])"
      using Cons.prems(3,4,5,6) by (rule x509DomainDERs_bad)
    with True Cons.prems(2) show ?thesis
      by (auto simp: Let_def split: sum.splits)
  next
    case False
    with Cons.prems(1) have "(d, e) \<in> set tds" by simp
    from Cons.IH [OF this Cons.prems(2,3,4,5,6)] a show ?thesis
      by (auto simp: Let_def split: sum.splits)
  qed
qed

lemma demo_bad_x5c_build:
  "buildX509BundlesResponse demo_lib demo_fs_bad_x5c demo_server
     = Inl (DecodeX5CFailed ''bad.org'' ''illegal base64 data'')"
  by (simp add: buildX509BundlesResponse_def loadPEMDERs_def loadTrustBundles_def demo_defs
      demo_fs_bad_x5c_def loadPEMDERs_loop.simps)

lemma decodeX5C_other_parser:
  "decodeX5C (L\<lparr>x509_ParseCertificate := p\<rparr>) d cs ders = decodeX5C L d cs ders"
  by (induction cs arbitrary: ders) (simp_all split: sum.splits)

lemma x509DomainDERs_other_parser:
  "x509DomainDERs (L\<lparr>x509_ParseCertificate := p\<rparr>) d keys ders = x509DomainDERs L d keys ders"
  by (induction keys arbitrary: ders) (simp_all add: decodeX5C_other_parser split: sum.splits)

lemma x509FederatedBundles_other_parser:
  "x509FederatedBundles (L\<lparr>x509_ParseCertificate := p\<rparr>) localTD tds m
     = x509FederatedBundles L localTD tds m"
proof (induction tds arbitrary: m)
  case Nil
  show ?case by simp
next
  case (Cons a tds)
  obtain d e where a: "a = (d, e)" by (cases a)
  show ?case
    unfolding a by (simp add: x509DomainDERs_other_parser Cons.IH Let_def split: sum.splits)
qed

lemma loadPEMDERs_relabel:
  "loadPEMDERs (L\<lparr>pem_Decode := relabel_decoder f (pem_Decode L)\<rparr>) fs s name
     = loadPEMDERs L fs s name"
  by (simp add: loadPEMDERs_def loop_relabel split: option.splits)

lemma svid_material:
  assumes "loadPEMDERs L fs s ''certificates.pem'' = Inr ders"
    and "buildX509SVIDResponse L fs s = Inr resp"
  shows "map X509Svid (Svids resp) = [concat ders]"
  using assms
  by (auto simp: buildX509SVIDResponse_def concatDERs_concat split: sum.splits if_splits)

lemma builders_other_parser:
  assumes "loadPEMDERs L fs s ''certificates.pem'' = Inr ders"
    and "p (hd ders) = x509_ParseCertificate L (hd ders)"
  shows "buildX509SVIDResponse (L\<lparr>x509_ParseCertificate := p\<rparr>) fs s = buildX509SVIDResponse L fs s"
    and "buildX509BundlesResponse (L\<lparr>x509_ParseCertificate := p\<rparr>) fs s
      = buildX509BundlesResponse L fs s"
proof -
  let ?L = "L\<lparr>x509_ParseCertificate := p\<rparr>"
  have l: "loadPEMDERs ?L fs s name = loadPEMDERs L fs s name" for name
    by (simp add: loadPEMDERs_def split: option.splits)
  have k: "loadPrivateKeyPKCS8DER ?L fs s name = loadPrivateKeyPKCS8DER L fs s name" for name
    by (simp add: loadPrivateKeyPKCS8DER_def split: option.splits sum.splits)
  have t: "loadTrustBundles ?L fs s = loadTrustBundles L fs s"
    by (simp add: loadTrustBundles_def split: option.splits)
  have f: "x509FederatedBundles ?L localTD tds m = x509FederatedBundles L localTD tds m"
    for localTD tds m
    by (rule x509FederatedBundles_other_parser)
  show "buildX509SVIDResponse ?L fs s = buildX509SVIDResponse L fs s"
    using assms by (simp add: buildX509SVIDResponse_def l k split: sum.splits)
  show "buildX509BundlesResponse ?L fs s = buildX509BundlesResponse L fs s"
    using assms by (simp add: buildX509BundlesResponse_def l t f Let_def split: sum.splits)
qed

lemma hub_inv_new: "hub_inv newBroadcaster"
  by (simp add: hub_inv_def newBroadcaster_def)

lemma hub_inv_subscribe: "hub_inv b \<Longrightarrow> hub_inv (snd (subscribe b))"
  by (auto simp: hub_inv_def subscribe_def make_chan_def Let_def split: if_splits)

lemma hub_inv_unsubscribe: "hub_inv b \<Longrightarrow> hub_inv (unsubscribe b sid)"
  by (auto simp: hub_inv_def unsubscribe_def split: if_splits)

lemma broadcast_subs:
  "subs (broadcast b) sid =
     (case subs b sid of
        None \<Rightarrow> None
      | Some ch \<Rightarrow>
          Some (if chan_len ch < chan_cap ch then ch\<lparr>chan_len := chan_len ch + 1\<rparr> else ch))"
  by (simp add: broadcast_def select_send_default_def chan_send_def split: option.splits)

lemma hub_inv_broadcast: "hub_inv b \<Longrightarrow> hub_inv (broadcast b)"
  unfolding hub_inv_def broadcast_subs
  by (auto split: option.splits if_splits)

lemma hub_inv_receive: "hub_inv b \<Longrightarrow> hub_inv (receive b sid)"
  by (auto simp: hub_inv_def receive_def chan_recv_def split: option.splits if_splits)

lemma hub_inv_step: "hub_inv b \<Longrightarrow> hub_inv (hub_step b x)"
  by (cases x) (simp_all add: hub_inv_subscribe hub_inv_unsubscribe hub_inv_broadcast hub_inv_receive)

lemma hub_inv_foldl: "hub_inv b \<Longrightarrow> hub_inv (foldl hub_step b xs)"
  by (induction xs arbitrary: b) (simp_all add: hub_inv_step)

lemma broadcast_fills:
  assumes "hub_inv b" and "subs (broadcast b) sid = Some ch"
  shows "chan_len ch = 1"
proof -
  from assms(2) obtain ch0 where s: "subs b sid = Some ch0"
    and c: "ch = (if chan_len ch0 < chan_cap ch0 then ch0\<lparr>chan_len := chan_len ch0 + 1\<rparr> else ch0)"
    by (auto simp: broadcast_subs split: option.splits)
  from assms(1) s have "chan_cap ch0 = 1 \<and> chan_len ch0 \<le> 1"
    by (simp add: hub_inv_def)
  with c show ?thesis
    by (cases "chan_len ch0 < chan_cap ch0") auto
qed

lemma demo_hub_run:
  "subs (hub_run [Subscribe, Subscribe, Broadcast, Receive 0, Broadcast, Broadcast]) 0
     = Some \<lparr>chan_cap = 1, chan_len = 1\<rparr>"
  "subs (hub_run [Subscribe, Subscribe, Broadcast, Receive 0, Broadcast, Broadcast]) 1
     = Some \<lparr>chan_cap = 1, chan_len = 1\<rparr>"
  "subs (hub_run [Subscribe, Subscribe, Broadcast, Receive 0]) 0
     = Some \<lparr>chan_cap = 1, chan_len = 0\<rparr>"
  "subs (hub_run [Subscribe, Subscribe, Broadcast, Receive 0]) 1
     = Some \<lparr>chan_cap = 1, chan_len = 1\<rparr>"
  by (simp_all add: hub_run_def subscribe_def unsubscribe_def broadcast_def receive_def
      newBroadcaster_def make_chan_def chan_send_def chan_recv_def select_send_default_def Let_def)

lemma decodeX5C_result:
  "decodeX5C L d cs ders0 = Inr ders \<Longrightarrow>
   \<exists>new. ders = ders0 @ new \<and> map (base64_DecodeString L) cs = map Inr new"
proof (induction cs arbitrary: ders0)
  case Nil
  then show ?case by simp
next
  case (Cons c cs)
  from Cons.prems obtain der where d: "base64_DecodeString L c = Inr der"
    and r: "decodeX5C L d cs (ders0 @ [der]) = Inr ders"
    by (auto split: sum.splits)
  from Cons.IH [OF r] obtain new where "ders = (ders0 @ [der]) @ new"
    and "map (base64_DecodeString L) cs = map Inr new" by blast
  then have "ders = ders0 @ (der # new)
      \<and> map (base64_DecodeString L) (c # cs) = map Inr (der # new)"
    using d by simp
  then show ?case by blast
qed

lemma x509DomainDERs_result:
  "x509DomainDERs L d keys ders0 = Inr ders \<Longrightarrow>
   \<exists>new. ders = ders0 @ new
     \<and> map (base64_DecodeString L)
          (concat (map X5C (filter (\<lambda>k. Use k = ''x509-svid'') keys))) = map Inr new"
proof (induction keys arbitrary: ders0)
  case Nil
  then show ?case by simp
next
  case (Cons k keys)
  show ?case
  proof (cases "Use k = ''x509-svid''")
    case False
    with Cons.prems have "x509DomainDERs L d keys ders0 = Inr ders" by simp
    from Cons.IH [OF this] False show ?thesis by simp
  next
    case True
    with Cons.prems obtain ders1 where one: "decodeX5C L d (X5C k) ders0 = Inr ders1"
      and two: "x509DomainDERs L d keys ders1 = Inr ders"
      by (auto split: sum.splits)
    from decodeX5C_result [OF one] obtain n1 where n1: "ders1 = ders0 @ n1"
      "map (base64_DecodeString L) (X5C k) = map Inr n1" by blast
    from Cons.IH [OF two] obtain n2 where n2: "ders = ders1 @ n2"
      "map (base64_DecodeString L)
          (concat (map X5C (filter (\<lambda>k. Use k = ''x509-svid'') keys))) = map Inr n2" by blast
    from n1 n2 True have "ders = ders0 @ (n1 @ n2)
       \<and> map (base64_DecodeString L)
          (concat (map X5C (filter (\<lambda>k. Use k = ''x509-svid'') (k # keys)))) = map Inr (n1 @ n2)"
      by simp
    then show ?thesis by blast
  qed
qed

lemma x509FederatedBundles_result:
  "x509FederatedBundles L localTD tds m0 = Inr m \<Longrightarrow>
   m localTD = m0 localTD
   \<and> (\<forall>key. m key \<noteq> m0 key \<longrightarrow>
        (\<exists>d e ders. (d, e) \<in> set tds \<and> key = ''spiffe://'' @ d \<and> key \<noteq> localTD
           \<and> x509DomainDERs L d (Keys e) [] = Inr ders \<and> ders \<noteq> []
           \<and> m key = Some (concatDERs ders)))"
proof (induction tds arbitrary: m0)
  case Nil
  then show ?case by simp
next
  case (Cons a tds)
  obtain d e where a: "a = (d, e)" by (cases a)
  let ?tdKey = "''spiffe://'' @ d"
  show ?case
  proof (cases "?tdKey = localTD")
    case True
    with Cons.prems a have "x509FederatedBundles L localTD tds m0 = Inr m"
      by (simp add: Let_def)
    note ih = Cons.IH [OF this]
    have "\<exists>d' e' ders'. (d', e') \<in> set (a # tds) \<and> key = ''spiffe://'' @ d'
           \<and> key \<noteq> localTD
           \<and> x509DomainDERs L d' (Keys e') [] = Inr ders' \<and> ders' \<noteq> []
           \<and> m key = Some (concatDERs ders')" if neq: "m key \<noteq> m0 key" for key
    proof -
      from ih neq obtain d' e' ders' where "(d', e') \<in> set tds" "key = ''spiffe://'' @ d'"
        "key \<noteq> localTD" "x509DomainDERs L d' (Keys e') [] = Inr ders'" "ders' \<noteq> []"
        "m key = Some (concatDERs ders')" by blast
      then have "(d', e') \<in> set (a # tds) \<and> key = ''spiffe://'' @ d'
           \<and> key \<noteq> localTD
           \<and> x509DomainDERs L d' (Keys e') [] = Inr ders' \<and> ders' \<noteq> []
           \<and> m key = Some (concatDERs ders')" by simp
      then show ?thesis by blast
    qed
    with ih [THEN conjunct1] show ?thesis by blast
  next
    case False
    have "\<exists>ders. x509DomainDERs L d (Keys e) [] = Inr ders"
      using Cons.prems a False
      by (cases "x509DomainDERs L d (Keys e) []") (simp_all add: Let_def)
    then obtain ders where ders: "x509DomainDERs L d (Keys e) [] = Inr ders" ..
    let ?m1 = "if length ders > 0 then m0(?tdKey \<mapsto> concatDERs ders) else m0"
    have rest: "x509FederatedBundles L localTD tds ?m1 = Inr m"
      using Cons.prems a False ders by (cases "ders = []") (simp_all add: Let_def)
    note ih = Cons.IH [OF rest]
    have local: "m localTD = m0 localTD"
      using ih False by auto
    have other: "\<exists>d' e' ders'. (d', e') \<in> set (a # tds) \<and> key = ''spiffe://'' @ d'
           \<and> key \<noteq> localTD
           \<and> x509DomainDERs L d' (Keys e') [] = Inr ders' \<and> ders' \<noteq> []
           \<and> m key = Some (concatDERs ders')" if neq: "m key \<noteq> m0 key" for key
    proof (cases "m key = ?m1 key")
      case False
      with ih obtain d' e' ders' where "(d', e') \<in> set tds" "key = ''spiffe://'' @ d'"
        "key \<noteq> localTD" "x509DomainDERs L d' (Keys e') [] = Inr ders'" "ders' \<noteq> []"
        "m key = Some (concatDERs ders')" by blast
      then have "(d', e') \<in> set (a # tds) \<and> key = ''spiffe://'' @ d'
           \<and> key \<noteq> localTD
           \<and> x509DomainDERs L d' (Keys e') [] = Inr ders' \<and> ders' \<noteq> []
           \<and> m key = Some (concatDERs ders')" by simp
      then show ?thesis by blast
    next
      case True
      with neq have k: "key = ?tdKey" and ne: "ders \<noteq> []"
        by (auto split: if_splits)
      with True have "m key = Some (concatDERs ders)" by simp
      with k ne ders \<open>?tdKey \<noteq> localTD\<close> a
      have "(d, e) \<in> set (a # tds) \<and> key = ''spiffe://'' @ d
           \<and> key \<noteq> localTD
           \<and> x509DomainDERs L d (Keys e) [] = Inr ders \<and> ders \<noteq> []
           \<and> m key = Some (concatDERs ders)" by simp
      then show ?thesis by blast
    qed
    from local other show ?thesis by blast
  qed
qed

lemma buildX509Bundles_stages:
  assumes "buildX509BundlesResponse L fs s = Inr resp"
  shows "\<exists>ders leaf caDERs tb.
      loadPEMDERs L fs s ''certificates.pem'' = Inr ders \<and> ders \<noteq> []
      \<and> x509_ParseCertificate L (hd ders) = Inr leaf \<and> URIs leaf \<noteq> []
      \<and> loadPEMDERs L fs s ''ca_certificates.pem'' = Inr caDERs
      \<and> loadTrustBundles L fs s = Inr tb
      \<and> x509FederatedBundles L (''spiffe://'' @ URL_Host (hd (URIs leaf))) (TrustDomains tb)
           (Map.empty(''spiffe://'' @ URL_Host (hd (URIs leaf)) \<mapsto> concatDERs caDERs))
          = Inr (X509_Bundles resp)"
proof (cases "loadPEMDERs L fs s ''certificates.pem''")
  case (Inl a)
  with assms show ?thesis by (simp add: buildX509BundlesResponse_def)
next
  case ders: (Inr ders)
  with assms have ne: "ders \<noteq> []"
    by (auto simp: buildX509BundlesResponse_def)
  show ?thesis
  proof (cases "x509_ParseCertificate L (hd ders)")
    case (Inl a)
    with assms ders ne show ?thesis by (simp add: buildX509BundlesResponse_def)
  next
    case leaf: (Inr leaf)
    with assms ders ne have u: "URIs leaf \<noteq> []"
      by (auto simp: buildX509BundlesResponse_def)
    show ?thesis
    proof (cases "loadPEMDERs L fs s ''ca_certificates.pem''")
      case (Inl a)
      with assms ders ne leaf u show ?thesis
        by (simp add: buildX509BundlesResponse_def Let_def)
    next
      case ca: (Inr caDERs)
      show ?thesis
      proof (cases "loadTrustBundles L fs s")
        case (Inl a)
        with assms ders ne leaf u ca show ?thesis
          by (simp add: buildX509BundlesResponse_def Let_def)
      next
        case tb: (Inr tb)
        let ?local = "''spiffe://'' @ URL_Host (hd (URIs leaf))"
        from assms ders ne leaf u ca tb
        have "x509FederatedBundles L ?local (TrustDomains tb)
           (Map.empty(?local \<mapsto> concatDERs caDERs)) = Inr (X509_Bundles resp)"
          by (cases "x509FederatedBundles L ?local (TrustDomains tb)
                (Map.empty(?local \<mapsto> concatDERs caDERs))")
             (auto simp: buildX509BundlesResponse_def Let_def)
        with ders ne leaf u ca tb show ?thesis by blast
      qed
    qed
  qed
qed

lemma demo_x509_bundles_build:
  "buildX509BundlesResponse demo_lib demo_fs1 demo_server = Inr demo_x509_bundles"
  by (simp add: buildX509BundlesResponse_def loadPEMDERs_def loadTrustBundles_def demo_defs
      demo_fs1_def demo_x509_bundles_def loadPEMDERs_loop.simps)

lemma demo_jwt_bundles_build:
  "buildJWTBundlesResponse demo_lib demo_fs_no_certs demo_server = Inr demo_jwt_bundles"
  by (simp add: buildJWTBundlesResponse_def loadTrustBundles_def demo_defs
      demo_fs_no_certs_def demo_jwt_bundles_def)

lemma jwtDomainKeys_result:
  "jwtDomainKeys L d keys acc = Inr ks \<Longrightarrow>
   \<exists>new. ks = acc @ new
     \<and> map (json_Marshal_trustKey L) (filter (\<lambda>k. Use k = ''jwt-svid'') keys) = map Inr new"
proof (induction keys arbitrary: acc)
  case Nil
  then show ?case by simp
next
  case (Cons k keys)
  show ?case
  proof (cases "Use k = ''jwt-svid''")
    case False
    with Cons.prems have "jwtDomainKeys L d keys acc = Inr ks" by simp
    from Cons.IH [OF this] False show ?thesis by simp
  next
    case True
    have "\<exists>b. json_Marshal_trustKey L k = Inr b"
      using Cons.prems True by (cases "json_Marshal_trustKey L k") simp_all
    then obtain b where b: "json_Marshal_trustKey L k = Inr b" ..
    with Cons.prems True have "jwtDomainKeys L d keys (acc @ [b]) = Inr ks" by simp
    from Cons.IH [OF this] obtain new where "ks = (acc @ [b]) @ new"
      "map (json_Marshal_trustKey L) (filter (\<lambda>k. Use k = ''jwt-svid'') keys) = map Inr new"
      by blast
    with True b have "ks = acc @ (b # new)
       \<and> map (json_Marshal_trustKey L) (filter (\<lambda>k. Use k = ''jwt-svid'') (k # keys))
           = map Inr (b # new)"
      by simp
    then show ?thesis by blast
  qed
qed

lemma jwtDomainKeys_filter:
  "jwtDomainKeys L d (filter (\<lambda>k. Use k = ''jwt-svid'') keys) acc = jwtDomainKeys L d keys acc"
  by (induction keys arbitrary: acc) (simp_all split: sum.splits)

lemma Keys_jwt_only: "Keys (jwt_only e) = filter (\<lambda>k. Use k = ''jwt-svid'') (Keys e)"
  by (simp add: jwt_only_def jwt_svid_keys_def)

lemma jwtBundles_filter:
  "jwtBundles L (map (\<lambda>(d, e). (d, jwt_only e)) tds) m = jwtBundles L tds m"
proof (induction tds arbitrary: m)
  case Nil
  show ?case by simp
next
  case (Cons a tds)
  obtain d e where a: "a = (d, e)" by (cases a)
  let ?f = "\<lambda>(d, e). (d, jwt_only e)"
  have l: "map ?f ((d, e) # tds) = (d, jwt_only e) # map ?f tds" by simp
  have k: "jwtDomainKeys L d (Keys (jwt_only e)) [] = jwtDomainKeys L d (Keys e) []"
    by (simp add: Keys_jwt_only jwtDomainKeys_filter)
  show ?case
  proof (cases "jwtDomainKeys L d (Keys e) []")
    case (Inl err)
    then show ?thesis unfolding a l by (simp add: k)
  next
    case ks: (Inr ks)
    show ?thesis
    proof (cases "ks = []")
      case True
      have e1: "jwtBundles L ((d, jwt_only e) # map ?f tds) m = jwtBundles L (map ?f tds) m"
        using ks True by (simp add: k)
      have e2: "jwtBundles L ((d, e) # tds) m = jwtBundles L tds m"
        using ks True by simp
      show ?thesis unfolding a l e1 e2 by (rule Cons.IH)
    next
      case False
      show ?thesis
      proof (cases "json_Marshal_jwks L ks")
        case (Inl err)
        with ks False show ?thesis unfolding a l by (simp add: k)
      next
        case (Inr doc)
        let ?m1 = "m(''spiffe://'' @ d \<mapsto> doc)"
        have e1: "jwtBundles L ((d, jwt_only e) # map ?f tds) m = jwtBundles L (map ?f tds) ?m1"
          using ks False Inr by (simp add: k)
        have e2: "jwtBundles L ((d, e) # tds) m = jwtBundles L tds ?m1"
          using ks False Inr by simp
        show ?thesis unfolding a l e1 e2 by (rule Cons.IH)
      qed
    qed
  qed
qed

lemma jwtBundles_step:
  assumes "jwtBundles L ((d, e) # tds) m0 = Inr m"
  shows "\<exists>ks. jwtDomainKeys L d (Keys e) [] = Inr ks
     \<and> (ks = [] \<longrightarrow> jwtBundles L tds m0 = Inr m)
     \<and> (ks \<noteq> [] \<longrightarrow> (\<exists>doc. json_Marshal_jwks L ks = Inr doc
            \<and> jwtBundles L tds (m0(''spiffe://'' @ d \<mapsto> doc)) = Inr m))"
proof (cases "jwtDomainKeys L d (Keys e) []")
  case (Inl a)
  with assms show ?thesis by simp
next
  case ks: (Inr ks)
  show ?thesis
  proof (cases "ks = []")
    case True
    with assms ks show ?thesis by simp
  next
    case False
    have "\<exists>doc. json_Marshal_jwks L ks = Inr doc"
      using assms ks False by (cases "json_Marshal_jwks L ks") simp_all
    then obtain doc where doc: "json_Marshal_jwks L ks = Inr doc" ..
    with assms ks False have "jwtBundles L tds (m0(''spiffe://'' @ d \<mapsto> doc)) = Inr m"
      by simp
    with ks False doc show ?thesis by simp
  qed
qed

lemma jwtDomainKeys_empty_iff:
  assumes "jwtDomainKeys L d (Keys e) [] = Inr ks"
  shows "map (json_Marshal_trustKey L) (jwt_svid_keys e) = map Inr ks"
    and "(ks = []) = (jwt_svid_keys e = [])"
proof -
  from jwtDomainKeys_result [OF assms]
  show m: "map (json_Marshal_trustKey L) (jwt_svid_keys e) = map Inr ks"
    by (simp add: jwt_svid_keys_def)
  then have "length (jwt_svid_keys e) = length ks"
    by (rule map_eq_imp_length_eq)
  then show "(ks = []) = (jwt_svid_keys e = [])" by auto
qed

lemma jwtBundles_changes:
  "jwtBundles L tds m0 = Inr m \<Longrightarrow> m key \<noteq> m0 key \<Longrightarrow>
   \<exists>d e. (d, e) \<in> set tds \<and> key = ''spiffe://'' @ d \<and> jwt_svid_keys e \<noteq> []"
proof (induction tds arbitrary: m0)
  case Nil
  then show ?case by simp
next
  case (Cons a tds)
  obtain d e where a: "a = (d, e)" by (cases a)
  from jwtBundles_step [OF Cons.prems(1) [unfolded a]] obtain ks where
    ks: "jwtDomainKeys L d (Keys e) [] = Inr ks"
    and empty: "ks = [] \<longrightarrow> jwtBundles L tds m0 = Inr m"
    and full: "ks \<noteq> [] \<longrightarrow> (\<exists>doc. json_Marshal_jwks L ks = Inr doc
            \<and> jwtBundles L tds (m0(''spiffe://'' @ d \<mapsto> doc)) = Inr m)"
    by blast
  have weaken: "\<exists>d' e'. (d', e') \<in> set (a # tds) \<and> key = ''spiffe://'' @ d' \<and> jwt_svid_keys e' \<noteq> []"
    if "\<exists>d' e'. (d', e') \<in> set tds \<and> key = ''spiffe://'' @ d' \<and> jwt_svid_keys e' \<noteq> []"
    using that by auto
  show ?case
  proof (cases "ks = []")
    case True
    with empty have "jwtBundles L tds m0 = Inr m" by simp
    from Cons.IH [OF this Cons.prems(2)] show ?thesis by (rule weaken)
  next
    case False
    with full obtain doc where
      rest: "jwtBundles L tds (m0(''spiffe://'' @ d \<mapsto> doc)) = Inr m" by blast
    show ?thesis
    proof (cases "key = ''spiffe://'' @ d")
      case True
      from False jwtDomainKeys_empty_iff(2) [OF ks] have "jwt_svid_keys e \<noteq> []" by simp
      with True a have "(d, e) \<in> set (a # tds) \<and> key = ''spiffe://'' @ d \<and> jwt_svid_keys e \<noteq> []"
        by simp
      then show ?thesis by blast
    next
      case False
      with Cons.prems(2) have "m key \<noteq> (m0(''spiffe://'' @ d \<mapsto> doc)) key" by simp
      from Cons.IH [OF rest this] show ?thesis by (rule weaken)
    qed
  qed
qed

lemma jwtBundles_entry:
  "jwtBundles L tds m0 = Inr m \<Longrightarrow> distinct (map fst tds) \<Longrightarrow> (d, e) \<in> set tds \<Longrightarrow>
   jwt_svid_keys e \<noteq> [] \<Longrightarrow>
   \<exists>bs doc. map (json_Marshal_trustKey L) (jwt_svid_keys e) = map Inr bs
     \<and> json_Marshal_jwks L bs = Inr doc \<and> m (''spiffe://'' @ d) = Some doc"
proof (induction tds arbitrary: m0)
  case Nil
  then show ?case by simp
next
  case (Cons a tds)
  obtain d' e' where a: "a = (d', e')" by (cases a)
  from jwtBundles_step [OF Cons.prems(1) [unfolded a]] obtain ks where
    ks: "jwtDomainKeys L d' (Keys e') [] = Inr ks"
    and empty: "ks = [] \<longrightarrow> jwtBundles L tds m0 = Inr m"
    and full: "ks \<noteq> [] \<longrightarrow> (\<exists>doc. json_Marshal_jwks L ks = Inr doc
            \<and> jwtBundles L tds (m0(''spiffe://'' @ d' \<mapsto> doc)) = Inr m)"
    by blast
  from Cons.prems(2) a have dist: "distinct (map fst tds)" and fresh: "d' \<notin> fst ` set tds"
    by simp_all
  show ?case
  proof (cases "(d, e) = (d', e')")
    case True
    with Cons.prems(4) jwtDomainKeys_empty_iff(2) [OF ks] have ne: "ks \<noteq> []" by simp
    with full obtain doc where doc: "json_Marshal_jwks L ks = Inr doc"
      and rest: "jwtBundles L tds (m0(''spiffe://'' @ d' \<mapsto> doc)) = Inr m" by blast
    have "m (''spiffe://'' @ d') = (m0(''spiffe://'' @ d' \<mapsto> doc)) (''spiffe://'' @ d')"
    proof (rule ccontr)
      assume "m (''spiffe://'' @ d') \<noteq> (m0(''spiffe://'' @ d' \<mapsto> doc)) (''spiffe://'' @ d')"
      from jwtBundles_changes [OF rest this] obtain d'' e'' where
        "(d'', e'') \<in> set tds" "''spiffe://'' @ d' = ''spiffe://'' @ d''" by blast
      then have "d' \<in> fst ` set tds" by force
      with fresh show False by simp
    qed
    then have "m (''spiffe://'' @ d) = Some doc" using True by simp
    moreover have "map (json_Marshal_trustKey L) (jwt_svid_keys e) = map Inr ks"
      using jwtDomainKeys_empty_iff(1) [OF ks] True by simp
    ultimately show ?thesis using doc by blast
  next
    case False
    with Cons.prems(3) a have mem: "(d, e) \<in> set tds" by auto
    show ?thesis
    proof (cases "ks = []")
      case True
      with empty have "jwtBundles L tds m0 = Inr m" by simp
      from Cons.IH [OF this dist mem Cons.prems(4)] show ?thesis .
    next
      case False
      with full obtain doc where
        rest: "jwtBundles L tds (m0(''spiffe://'' @ d' \<mapsto> doc)) = Inr m" by blast
      from Cons.IH [OF rest dist mem Cons.prems(4)] show ?thesis .
    qed
  qed
qed

lemma demo_fs1_loads:
  "loadPEMDERs demo_lib demo_fs1 demo_server ''certificates.pem''
     = Inr [''cert:example.org'', ''pkcs8:ec:K1'', ''late'']"
  "loadPEMDERs demo_lib demo_fs1 demo_server ''ca_certificates.pem'' = Inr [''LOCALCA'', ''crl'']"
  by (simp_all add: loadPEMDERs_def demo_fs1_def demo_defs loadPEMDERs_loop.simps)

lemma session_run_append:
  "session_run b n st (xs @ ys)
     = (fst (session_run b n st xs) @ fst (session_run b n (snd (session_run b n st xs)) ys),
        snd (session_run b n (snd (session_run b n st xs)) ys))"
  by (induction xs arbitrary: st) (simp_all add: split_beta)

lemma fetch_stream_append:
  assumes "snd (fetch_stream b n fs0 s0 evs1) = Live"
  shows "fetch_stream b n fs0 s0 (evs1 @ evs2)
     = (fst (fetch_stream b n fs0 s0 evs1) @ fst (session_run b n Live evs2),
        snd (session_run b n Live evs2))"
proof -
  from assms have "snd (session_run b n (snd (session_start b fs0 s0)) evs1) = Live"
    by (simp add: fetch_stream_def split_beta)
  then show ?thesis
    by (simp add: fetch_stream_def split_beta session_run_append)
qed

lemma fetch_stream_live_failure:
  assumes "snd (fetch_stream b n fs0 s0 evs1) = Live" and "b fs = Inl err"
  shows "fetch_stream b n fs0 s0 (evs1 @ [Rotated fs sr])
      = (fst (fetch_stream b n fs0 s0 evs1) @ [Log n err], Live)"
    and "fetch_stream b n fs0 s0 (evs1 @ Rotated fs sr # evs2)
      = (fst (fetch_stream b n fs0 s0 evs1) @ Log n err
           # drop (length (fst (fetch_stream b n fs0 s0 evs1)))
               (fst (fetch_stream b n fs0 s0 (evs1 @ evs2))),
         snd (fetch_stream b n fs0 s0 (evs1 @ evs2)))"
    and "b fs' = Inr p \<Longrightarrow>
      fetch_stream b n fs0 s0 (evs1 @ [Rotated fs sr, Rotated fs' None])
        = (fst (fetch_stream b n fs0 s0 evs1) @ [Log n err, Send p], Live)"
  using assms(2) by (simp_all add: fetch_stream_append [OF assms(1)] split_beta)

lemma builder_Inr:
  "buildX509SVIDResponse L fs s = Inr r \<Longrightarrow> svid_builder L s fs = Inr (SVIDPayload r)"
  "buildX509BundlesResponse L fs s = Inr rb \<Longrightarrow>
     x509_bundles_builder L s fs = Inr (X509BundlesPayload rb)"
  "buildJWTBundlesResponse L fs s = Inr rj \<Longrightarrow>
     jwt_bundles_builder L s fs = Inr (JWTBundlesPayload rj)"
  by (simp_all add: svid_builder_def x509_bundles_builder_def jwt_bundles_builder_def)

lemma svid_build_success:
  assumes "loadPEMDERs L fs s ''certificates.pem'' = Inr ders" and "ders \<noteq> []"
    and "loadPrivateKeyPKCS8DER L fs s ''private_key.pem'' = Inr keyDER"
    and "loadPEMDERs L fs s ''ca_certificates.pem'' = Inr caDERs"
    and "x509_ParseCertificate L (hd ders) = Inr leaf" and "URIs leaf \<noteq> []"
  shows "buildX509SVIDResponse L fs s
     = Inr \<lparr>Svids = [\<lparr>SpiffeId = URL_String (hd (URIs leaf)), X509Svid = concat ders,
                       X509SvidKey = keyDER, Bundle = concat caDERs\<rparr>]\<rparr>"
  using assms by (simp add: buildX509SVIDResponse_def concatDERs_concat)

lemma svid_bundle_material:
  assumes "loadPEMDERs L fs s ''ca_certificates.pem'' = Inr caDERs"
    and "buildX509SVIDResponse L fs s = Inr resp"
  shows "map Bundle (Svids resp) = [concat caDERs]"
  using assms
  by (auto simp: buildX509SVIDResponse_def concatDERs_concat split: sum.splits if_splits)

lemma bundles_local_entry:
  assumes "buildX509BundlesResponse L fs s = Inr resp"
    and "loadPEMDERs L fs s ''certificates.pem'' = Inr ders"
    and "x509_ParseCertificate L (hd ders) = Inr leaf"
    and "loadPEMDERs L fs s ''ca_certificates.pem'' = Inr caDERs"
  shows "X509_Bundles resp (''spiffe://'' @ URL_Host (hd (URIs leaf))) = Some (concat caDERs)"
proof -
  from buildX509Bundles_stages [OF assms(1)] obtain ders' leaf' caDERs' tb where
    st: "loadPEMDERs L fs s ''certificates.pem'' = Inr ders'"
      "x509_ParseCertificate L (hd ders') = Inr leaf'"
      "loadPEMDERs L fs s ''ca_certificates.pem'' = Inr caDERs'"
    and ne: "ders' \<noteq> []" "URIs leaf' \<noteq> []"
    and tb: "loadTrustBundles L fs s = Inr tb"
    and fed: "x509FederatedBundles L (''spiffe://'' @ URL_Host (hd (URIs leaf'))) (TrustDomains tb)
           (Map.empty(''spiffe://'' @ URL_Host (hd (URIs leaf')) \<mapsto> concatDERs caDERs'))
          = Inr (X509_Bundles resp)"
    by (elim exE conjE) (rule that)
  from st assms(2,3,4) have eq: "ders' = ders" "leaf' = leaf" "caDERs' = caDERs" by simp_all
  from x509FederatedBundles_result [OF fed, THEN conjunct1] show ?thesis
    unfolding eq by (simp add: concatDERs_concat)
qed

section \<open>Properties\<close>

text \<open>
  C8 (as amended). For every readable file, \<^verbatim>\<open>loadPEMDERs\<close> never fails: it returns the
  contents of the blocks that \<^verbatim>\<open>pem.Decode\<close> yields one after the other, up to the first
  place where \<^verbatim>\<open>pem.Decode\<close> finds no block in what is left of the input, and the empty
  list when it finds none at all. (Where that place is depends on \<^verbatim>\<open>pem.Decode\<close>, which
  passes over malformed blocks.) The builders of the SVID and of the X.509 bundles fail
  on an empty chain of \<^verbatim>\<open>certificates.pem\<close>. An empty chain of \<^verbatim>\<open>ca_certificates.pem\<close> is
  no error: the SVID is then built with an empty bundle, and the X.509 bundles with an
  empty entry for the local trust domain.
\<close>

theorem decode_chain_best_effort:
  assumes "fs (filepath_Join L (credsDir s) name) = Some data"
  shows "(\<exists>bs rest. decodes_chain (pem_Decode L) data bs rest \<and> decoding_stops (pem_Decode L) rest)
    \<and> (\<forall>bs rest. decodes_chain (pem_Decode L) data bs rest \<and> decoding_stops (pem_Decode L) rest \<longrightarrow>
          loadPEMDERs L fs s name = Inr (map Block_Bytes bs)
          \<and> (name = ''certificates.pem'' \<and> bs = [] \<longrightarrow>
               buildX509SVIDResponse L fs s = Inl NoCertificatesFound
               \<and> buildX509BundlesResponse L fs s = Inl NoCertificatesFound)
          \<and> (name = ''ca_certificates.pem'' \<and> bs = [] \<longrightarrow>
               (\<forall>ders keyDER leaf.
                  loadPEMDERs L fs s ''certificates.pem'' = Inr ders \<and> ders \<noteq> []
                  \<and> loadPrivateKeyPKCS8DER L fs s ''private_key.pem'' = Inr keyDER
                  \<and> x509_ParseCertificate L (hd ders) = Inr leaf \<and> URIs leaf \<noteq> [] \<longrightarrow>
                  buildX509SVIDResponse L fs s
                    = Inr \<lparr>Svids = [\<lparr>SpiffeId = URL_String (hd (URIs leaf)),
                                      X509Svid = concat ders, X509SvidKey = keyDER,
                                      Bundle = []\<rparr>]\<rparr>)
               \<and> (\<forall>resp ders leaf.
                  buildX509BundlesResponse L fs s = Inr resp
                  \<and> loadPEMDERs L fs s ''certificates.pem'' = Inr ders
                  \<and> x509_ParseCertificate L (hd ders) = Inr leaf \<longrightarrow>
                  X509_Bundles resp (''spiffe://'' @ URL_Host (hd (URIs leaf))) = Some [])))"
proof (intro conjI allI impI)
  show "\<exists>bs rest. decodes_chain (pem_Decode L) data bs rest \<and> decoding_stops (pem_Decode L) rest"
    by (rule chain_exists)
next
  fix bs rest
  assume c: "decodes_chain (pem_Decode L) data bs rest \<and> decoding_stops (pem_Decode L) rest"
  then have "loadPEMDERs_loop (pem_Decode L) data [] = map Block_Bytes bs"
    by (auto intro: loop_chain)
  then show l: "loadPEMDERs L fs s name = Inr (map Block_Bytes bs)"
    using assms by (simp add: loadPEMDERs_def)
  {
    assume e: "name = ''certificates.pem'' \<and> bs = []"
    with l show "buildX509SVIDResponse L fs s = Inl NoCertificatesFound"
      by (simp add: buildX509SVIDResponse_def)
    from e l show "buildX509BundlesResponse L fs s = Inl NoCertificatesFound"
      by (simp add: buildX509BundlesResponse_def)
  next
    assume e: "name = ''ca_certificates.pem'' \<and> bs = []"
    with l have ca: "loadPEMDERs L fs s ''ca_certificates.pem'' = Inr []" by simp
    {
      fix ders keyDER leaf
      assume a: "loadPEMDERs L fs s ''certificates.pem'' = Inr ders \<and> ders \<noteq> []
                  \<and> loadPrivateKeyPKCS8DER L fs s ''private_key.pem'' = Inr keyDER
                  \<and> x509_ParseCertificate L (hd ders) = Inr leaf \<and> URIs leaf \<noteq> []"
      then have "buildX509SVIDResponse L fs s
          = Inr \<lparr>Svids = [\<lparr>SpiffeId = URL_String (hd (URIs leaf)), X509Svid = concat ders,
                       X509SvidKey = keyDER, Bundle = concat []\<rparr>]\<rparr>"
        using ca by (intro svid_build_success) simp_all
      then show "buildX509SVIDResponse L fs s
                    = Inr \<lparr>Svids = [\<lparr>SpiffeId = URL_String (hd (URIs leaf)),
                                      X509Svid = concat ders, X509SvidKey = keyDER,
                                      Bundle = []\<rparr>]\<rparr>"
        by simp
    next
      fix resp ders leaf
      assume a: "buildX509BundlesResponse L fs s = Inr resp
                  \<and> loadPEMDERs L fs s ''certificates.pem'' = Inr ders
                  \<and> x509_ParseCertificate L (hd ders) = Inr leaf"
      then have a1: "buildX509BundlesResponse L fs s = Inr resp"
        and a2: "loadPEMDERs L fs s ''certificates.pem'' = Inr ders"
        and a3: "x509_ParseCertificate L (hd ders) = Inr leaf"
        by simp_all
      have "X509_Bundles resp (''spiffe://'' @ URL_Host (hd (URIs leaf))) = Some (concat [])"
        using a1 a2 a3 ca by (rule bundles_local_entry)
      then show "X509_Bundles resp (''spiffe://'' @ URL_Host (hd (URIs leaf))) = Some []"
        by simp
    }
  }
qed

theorem decode_chain_best_effort_witness:
  "loadPEMDERs demo_lib demo_fs1 demo_server ''certificates.pem''
     = Inr [''cert:example.org'', ''pkcs8:ec:K1'', ''late'']
   \<and> loadPEMDERs demo_lib demo_fs_garbage demo_server ''certificates.pem'' = Inr []
   \<and> buildX509SVIDResponse demo_lib demo_fs_garbage demo_server = Inl NoCertificatesFound
   \<and> buildX509BundlesResponse demo_lib demo_fs_garbage demo_server = Inl NoCertificatesFound
   \<and> loadPEMDERs demo_lib demo_fs_empty_ca demo_server ''ca_certificates.pem'' = Inr []
   \<and> buildX509SVIDResponse demo_lib demo_fs_empty_ca demo_server
       = Inr \<lparr>Svids = [\<lparr>SpiffeId = ''spiffe://example.org/workload'',
                         X509Svid = ''cert:example.org'', X509SvidKey = ''pkcs8:ec:K1'',
                         Bundle = []\<rparr>]\<rparr>
   \<and> buildX509BundlesResponse demo_lib demo_fs_empty_ca demo_server
       = Inr \<lparr>X509_Bundles = [''spiffe://example.org'' \<mapsto> [],
                ''spiffe://other.org'' \<mapsto> ''OTHER1'', ''spiffe://x509only.org'' \<mapsto> ''ROOT'']\<rparr>"
proof -
  let ?r = "\<lparr>X509_Bundles = [''spiffe://example.org'' \<mapsto> [],
      ''spiffe://other.org'' \<mapsto> ''OTHER1'', ''spiffe://x509only.org'' \<mapsto> ''ROOT'']\<rparr>"
  let ?d1 = "''[CERTIFICATE|cert:example.org][PRIVATE KEY|pkcs8:ec:K1]junk[CERTIFICATE|late]''"
  let ?b1 = "\<lparr>Block_Type = ''CERTIFICATE'', Block_Headers = [], Block_Bytes = ''cert:example.org''\<rparr>"
  let ?b2 = "\<lparr>Block_Type = ''PRIVATE KEY'', Block_Headers = [], Block_Bytes = ''pkcs8:ec:K1''\<rparr>"
  let ?b3 = "\<lparr>Block_Type = ''CERTIFICATE'', Block_Headers = [], Block_Bytes = ''late''\<rparr>"
  let ?leaf = "\<lparr>URIs = [\<lparr>URL_String = ''spiffe://example.org/workload'',
      URL_Host = ''example.org''\<rparr>]\<rparr>"
  have f1: "demo_fs1 (filepath_Join demo_lib (credsDir demo_server) ''certificates.pem'') = Some ?d1"
    by (simp add: demo_fs1_def demo_lib_def demo_server_def)
  have c1: "decodes_chain (pem_Decode demo_lib) ?d1 [?b1, ?b2, ?b3] []
      \<and> decoding_stops (pem_Decode demo_lib) []"
    by (simp add: demo_lib_def Rep_demo_pem_Decode demo_pem_fun_def demo_pem_block_def
        decoding_stops_def)
  have f2: "demo_fs_garbage (filepath_Join demo_lib (credsDir demo_server) ''certificates.pem'')
      = Some ''no certificate here''"
    by (simp add: demo_fs_garbage_def demo_lib_def demo_server_def)
  have c2: "decodes_chain (pem_Decode demo_lib) ''no certificate here'' [] ''no certificate here''
      \<and> decoding_stops (pem_Decode demo_lib) ''no certificate here''"
    by (simp add: demo_lib_def Rep_demo_pem_Decode demo_pem_fun_def demo_pem_block_def
        decoding_stops_def)
  have f3: "demo_fs_empty_ca (filepath_Join demo_lib (credsDir demo_server) ''ca_certificates.pem'')
      = Some ''no certificate here''"
    by (simp add: demo_fs_empty_ca_def demo_lib_def demo_server_def)
  have ca: "''ca_certificates.pem'' = ''ca_certificates.pem'' \<and> ([] :: pem_Block list) = []"
    by simp
  have pre: "loadPEMDERs demo_lib demo_fs_empty_ca demo_server ''certificates.pem''
        = Inr [''cert:example.org''] \<and> [''cert:example.org''] \<noteq> []
      \<and> loadPrivateKeyPKCS8DER demo_lib demo_fs_empty_ca demo_server ''private_key.pem''
        = Inr ''pkcs8:ec:K1''
      \<and> x509_ParseCertificate demo_lib (hd [''cert:example.org'']) = Inr ?leaf
      \<and> URIs ?leaf \<noteq> []"
    by (simp add: loadPEMDERs_def loadPrivateKeyPKCS8DER_def demo_fs_empty_ca_def demo_defs
        loadPEMDERs_loop.simps)
  note t1 = decode_chain_best_effort [where fs = demo_fs1 and L = demo_lib and s = demo_server
      and name = "''certificates.pem''" and data = ?d1, OF f1, THEN conjunct2, rule_format, OF c1]
  note t2 = decode_chain_best_effort [where fs = demo_fs_garbage and L = demo_lib
      and s = demo_server and name = "''certificates.pem''" and data = "''no certificate here''",
      OF f2, THEN conjunct2, rule_format, OF c2]
  note t3 = decode_chain_best_effort [where fs = demo_fs_empty_ca and L = demo_lib
      and s = demo_server and name = "''ca_certificates.pem''"
      and data = "''no certificate here''", OF f3, THEN conjunct2, THEN spec, THEN spec,
      THEN mp, OF c2]
  note t4 = t3 [THEN conjunct2, THEN conjunct2, THEN mp, OF ca, THEN conjunct1,
      THEN spec, THEN spec, THEN spec, THEN mp, OF pre]
  obtain r where b: "buildX509BundlesResponse demo_lib demo_fs_empty_ca demo_server = Inr r"
    and rest: "\<forall>k. k \<noteq> ''spiffe://example.org'' \<longrightarrow> X509_Bundles r k = X509_Bundles ?r k"
    by (simp add: buildX509BundlesResponse_def loadPEMDERs_def loadTrustBundles_def demo_defs
        demo_fs_empty_ca_def loadPEMDERs_loop.simps)
  have pre': "buildX509BundlesResponse demo_lib demo_fs_empty_ca demo_server = Inr r
      \<and> loadPEMDERs demo_lib demo_fs_empty_ca demo_server ''certificates.pem''
        = Inr [''cert:example.org'']
      \<and> x509_ParseCertificate demo_lib (hd [''cert:example.org'']) = Inr ?leaf"
    using b pre by simp
  note t5 = t3 [THEN conjunct2, THEN conjunct2, THEN mp, OF ca, THEN conjunct2,
      THEN spec, THEN spec, THEN spec, THEN mp, OF pre']
  have "X509_Bundles r = X509_Bundles ?r"
  proof
    fix k
    show "X509_Bundles r k = X509_Bundles ?r k"
      using t5 rest by (cases "k = ''spiffe://example.org''") simp_all
  qed
  then have "r = ?r" by simp
  with b have b': "buildX509BundlesResponse demo_lib demo_fs_empty_ca demo_server = Inr ?r"
    by simp
  from t1 t2 t3 [THEN conjunct1] t4 b' show ?thesis by simp
qed

text \<open>
  C8 as stated fails: the second block of this \<^verbatim>\<open>certificates.pem\<close> is malformed, and the
  block after it is returned all the same, because the decoder, like \<^verbatim>\<open>pem.Decode\<close>,
  passes over a malformed block and finds the next one.
\<close>

theorem blocks_after_malformed_block_returned:
  "demo_pem_block ''CERTIFICATE|bad!][CERTIFICATE|after]'' = None
   \<and> loadPEMDERs demo_lib demo_fs_malformed demo_server ''certificates.pem''
       = Inr [''cert:example.org'', ''after'']
   \<and> loadPEMDERs demo_lib demo_fs_malformed demo_server ''certificates.pem''
       \<noteq> Inr [''cert:example.org'']"
  by (simp add: loadPEMDERs_def demo_fs_malformed_def demo_defs loadPEMDERs_loop.simps)

text \<open>
  C1 (as amended). If \<^verbatim>\<open>certificates.pem\<close> cannot be read, or no block decodes from it, or
  its first block is not a certificate, then the initial build fails and the session ends
  with an internal error and nothing sent, for the SVID stream and for the X.509-bundle
  stream. The builder of the JWT bundles reads \<^verbatim>\<open>trust_bundles.json\<close> only: its
  result is the same for any two file systems that agree on that file.
\<close>

theorem certificates_needed_by_x509_streams:
  assumes "fs (filepath_Join L (credsDir s) ''certificates.pem'') = None
     \<or> loadPEMDERs L fs s ''certificates.pem'' = Inr []
     \<or> (\<exists>ders e. loadPEMDERs L fs s ''certificates.pem'' = Inr ders \<and> ders \<noteq> []
           \<and> x509_ParseCertificate L (hd ders) = Inl e)"
  shows "(\<exists>err. buildX509SVIDResponse L fs s = Inl err
            \<and> FetchX509SVID L s fs send0 evs = ([], Returned (ReturnStatus Internal err)))
       \<and> (\<exists>err. buildX509BundlesResponse L fs s = Inl err
            \<and> FetchX509Bundles L s fs send0 evs = ([], Returned (ReturnStatus Internal err)))
       \<and> (\<forall>fs'. fs' (filepath_Join L (credsDir s) ''trust_bundles.json'')
                  = fs (filepath_Join L (credsDir s) ''trust_bundles.json'') \<longrightarrow>
               buildJWTBundlesResponse L fs' s = buildJWTBundlesResponse L fs s)"
proof (intro conjI allI impI)
  from svid_fails_without_chain [OF assms] obtain err where
    e: "buildX509SVIDResponse L fs s = Inl err" by blast
  then have "FetchX509SVID L s fs send0 evs = ([], Returned (ReturnStatus Internal err))"
    by (simp add: FetchX509SVID_def fetch_stream_initial_failure builder_Inl)
  with e show "\<exists>err. buildX509SVIDResponse L fs s = Inl err
      \<and> FetchX509SVID L s fs send0 evs = ([], Returned (ReturnStatus Internal err))"
    by blast
next
  from bundles_fail_without_chain [OF assms] obtain err where
    e: "buildX509BundlesResponse L fs s = Inl err" by blast
  then have "FetchX509Bundles L s fs send0 evs = ([], Returned (ReturnStatus Internal err))"
    by (simp add: FetchX509Bundles_def fetch_stream_initial_failure builder_Inl)
  with e show "\<exists>err. buildX509BundlesResponse L fs s = Inl err
      \<and> FetchX509Bundles L s fs send0 evs = ([], Returned (ReturnStatus Internal err))"
    by blast
next
  fix fs' :: filesystem
  assume "fs' (filepath_Join L (credsDir s) ''trust_bundles.json'')
      = fs (filepath_Join L (credsDir s) ''trust_bundles.json'')"
  then show "buildJWTBundlesResponse L fs' s = buildJWTBundlesResponse L fs s"
    by (simp add: buildJWTBundlesResponse_def loadTrustBundles_def)
qed

theorem certificates_needed_by_x509_streams_witness:
  "demo_fs_no_certs (filepath_Join demo_lib (credsDir demo_server) ''certificates.pem'') = None
   \<and> FetchX509SVID demo_lib demo_server demo_fs_no_certs None [CtxDone]
       = ([], Returned (ReturnStatus Internal (LoadCertificates (ReadFailed ''certificates.pem''))))
   \<and> FetchX509Bundles demo_lib demo_server demo_fs_no_certs None [CtxDone]
       = ([], Returned (ReturnStatus Internal (LoadCertificates (ReadFailed ''certificates.pem''))))
   \<and> buildJWTBundlesResponse demo_lib demo_fs_garbage demo_server
       = buildJWTBundlesResponse demo_lib demo_fs_no_certs demo_server"
proof -
  have h: "demo_fs_no_certs (filepath_Join demo_lib (credsDir demo_server) ''certificates.pem'') = None"
    by (simp add: demo_fs_no_certs_def demo_lib_def demo_server_def)
  have same: "demo_fs_garbage (filepath_Join demo_lib (credsDir demo_server) ''trust_bundles.json'')
      = demo_fs_no_certs (filepath_Join demo_lib (credsDir demo_server) ''trust_bundles.json'')"
    by (simp add: demo_fs_no_certs_def demo_fs_garbage_def demo_lib_def demo_server_def)
  have b1: "buildX509SVIDResponse demo_lib demo_fs_no_certs demo_server
      = Inl (LoadCertificates (ReadFailed ''certificates.pem''))"
    by (simp add: buildX509SVIDResponse_def loadPEMDERs_def demo_fs_no_certs_def demo_lib_def
        demo_server_def)
  have b2: "buildX509BundlesResponse demo_lib demo_fs_no_certs demo_server
      = Inl (LoadCertificates (ReadFailed ''certificates.pem''))"
    by (simp add: buildX509BundlesResponse_def loadPEMDERs_def demo_fs_no_certs_def demo_lib_def
        demo_server_def)
  note t = certificates_needed_by_x509_streams [where fs = demo_fs_no_certs and L = demo_lib
      and s = demo_server and ?send0.0 = None and evs = "[CtxDone]", OF disjI1, OF h]
  from t [THEN conjunct1] b1 have c1: "FetchX509SVID demo_lib demo_server demo_fs_no_certs None [CtxDone]
       = ([], Returned (ReturnStatus Internal (LoadCertificates (ReadFailed ''certificates.pem''))))"
    by auto
  from t [THEN conjunct2, THEN conjunct1] b2
  have c2: "FetchX509Bundles demo_lib demo_server demo_fs_no_certs None [CtxDone]
       = ([], Returned (ReturnStatus Internal (LoadCertificates (ReadFailed ''certificates.pem''))))"
    by auto
  from t [THEN conjunct2, THEN conjunct2, THEN spec, where x = demo_fs_garbage, THEN mp, OF same]
  have c3: "buildJWTBundlesResponse demo_lib demo_fs_garbage demo_server
       = buildJWTBundlesResponse demo_lib demo_fs_no_certs demo_server" .
  from h c1 c2 c3 show ?thesis by blast
qed

text \<open>
  C1 as stated fails for the JWT-bundle stream: with \<^verbatim>\<open>certificates.pem\<close> absent and a
  valid \<^verbatim>\<open>trust_bundles.json\<close>, the build succeeds, the bundle is sent and the session
  goes live.
\<close>

theorem jwt_stream_without_certificates:
  "demo_fs_no_certs (filepath_Join demo_lib (credsDir demo_server) ''certificates.pem'') = None
   \<and> \<not> isl (buildJWTBundlesResponse demo_lib demo_fs_no_certs demo_server)
   \<and> length (fst (FetchJWTBundles demo_lib demo_server demo_fs_no_certs None [])) = 2
   \<and> snd (FetchJWTBundles demo_lib demo_server demo_fs_no_certs None []) = Live
   \<and> (case hd (fst (FetchJWTBundles demo_lib demo_server demo_fs_no_certs None [])) of
         Send (JWTBundlesPayload r) \<Rightarrow>
           JWT_Bundles r ''spiffe://other.org'' = Some ''{keys:[{use:jwt-svid,kty:EC}]}''
       | _ \<Rightarrow> False)"
  by (simp add: FetchJWTBundles_def fetch_stream_def session_start_def jwt_bundles_builder_def
      buildJWTBundlesResponse_def loadTrustBundles_def demo_fs_no_certs_def demo_defs)

text \<open>
  C2. For each of the three handlers \<^verbatim>\<open>FetchX509SVID\<close>, \<^verbatim>\<open>FetchX509Bundles\<close> and
  \<^verbatim>\<open>FetchJWTBundles\<close>: when the builder fails on the initial build the handler returns
  an internal error carrying the builder's error and sends nothing, whatever happens
  later. When the handler is live after the events \<open>evs1\<close> and the builder fails on the
  rebuild of the next rotation, the handler adds one log entry to what it has done so
  far, sends nothing and is still live; the events after that rotation are handled as if
  the rotation had not happened; and if the builder succeeds on the rotation after it,
  the handler sends that response and stays live.
\<close>

theorem build_errors_fatal_at_start_swallowed_when_live:
  "(buildX509SVIDResponse L fs s = Inl err \<longrightarrow>
      FetchX509SVID L s fs send0 evs = ([], Returned (ReturnStatus Internal err))
      \<and> session_step (svid_builder L s) ''FetchX509SVID'' Live (Rotated fs sr)
          = ([Log ''FetchX509SVID'' err], Live)
      \<and> session_run (svid_builder L s) ''FetchX509SVID'' Live (Rotated fs sr # evs)
          = (Log ''FetchX509SVID'' err
               # fst (session_run (svid_builder L s) ''FetchX509SVID'' Live evs),
             snd (session_run (svid_builder L s) ''FetchX509SVID'' Live evs))
      \<and> (snd (FetchX509SVID L s fs0 send0 evs1) = Live \<longrightarrow>
            FetchX509SVID L s fs0 send0 (evs1 @ [Rotated fs sr])
              = (fst (FetchX509SVID L s fs0 send0 evs1) @ [Log ''FetchX509SVID'' err], Live)
            \<and> FetchX509SVID L s fs0 send0 (evs1 @ Rotated fs sr # evs2)
              = (fst (FetchX509SVID L s fs0 send0 evs1) @ Log ''FetchX509SVID'' err
                   # drop (length (fst (FetchX509SVID L s fs0 send0 evs1)))
                       (fst (FetchX509SVID L s fs0 send0 (evs1 @ evs2))),
                 snd (FetchX509SVID L s fs0 send0 (evs1 @ evs2)))
            \<and> (\<forall>fs' resp'. buildX509SVIDResponse L fs' s = Inr resp' \<longrightarrow>
                  FetchX509SVID L s fs0 send0 (evs1 @ [Rotated fs sr, Rotated fs' None])
                    = (fst (FetchX509SVID L s fs0 send0 evs1)
                         @ [Log ''FetchX509SVID'' err, Send (SVIDPayload resp')], Live))))
   \<and> (buildX509BundlesResponse L fs s = Inl err \<longrightarrow>
      FetchX509Bundles L s fs send0 evs = ([], Returned (ReturnStatus Internal err))
      \<and> session_step (x509_bundles_builder L s) ''FetchX509Bundles'' Live (Rotated fs sr)
          = ([Log ''FetchX509Bundles'' err], Live)
      \<and> session_run (x509_bundles_builder L s) ''FetchX509Bundles'' Live (Rotated fs sr # evs)
          = (Log ''FetchX509Bundles'' err
               # fst (session_run (x509_bundles_builder L s) ''FetchX509Bundles'' Live evs),
             snd (session_run (x509_bundles_builder L s) ''FetchX509Bundles'' Live evs))
      \<and> (snd (FetchX509Bundles L s fs0 send0 evs1) = Live \<longrightarrow>
            FetchX509Bundles L s fs0 send0 (evs1 @ [Rotated fs sr])
              = (fst (FetchX509Bundles L s fs0 send0 evs1) @ [Log ''FetchX509Bundles'' err], Live)
            \<and> FetchX509Bundles L s fs0 send0 (evs1 @ Rotated fs sr # evs2)
              = (fst (FetchX509Bundles L s fs0 send0 evs1) @ Log ''FetchX509Bundles'' err
                   # drop (length (fst (FetchX509Bundles L s fs0 send0 evs1)))
                       (fst (FetchX509Bundles L s fs0 send0 (evs1 @ evs2))),
                 snd (FetchX509Bundles L s fs0 send0 (evs1 @ evs2)))
            \<and> (\<forall>fs' resp'. buildX509BundlesResponse L fs' s = Inr resp' \<longrightarrow>
                  FetchX509Bundles L s fs0 send0 (evs1 @ [Rotated fs sr, Rotated fs' None])
                    = (fst (FetchX509Bundles L s fs0 send0 evs1)
                         @ [Log ''FetchX509Bundles'' err, Send (X509BundlesPayload resp')], Live))))
   \<and> (buildJWTBundlesResponse L fs s = Inl err \<longrightarrow>
      FetchJWTBundles L s fs send0 evs = ([], Returned (ReturnStatus Internal err))
      \<and> session_step (jwt_bundles_builder L s) ''FetchJWTBundles'' Live (Rotated fs sr)
          = ([Log ''FetchJWTBundles'' err], Live)
      \<and> session_run (jwt_bundles_builder L s) ''FetchJWTBundles'' Live (Rotated fs sr # evs)
          = (Log ''FetchJWTBundles'' err
               # fst (session_run (jwt_bundles_builder L s) ''FetchJWTBundles'' Live evs),
             snd (session_run (jwt_bundles_builder L s) ''FetchJWTBundles'' Live evs))
      \<and> (snd (FetchJWTBundles L s fs0 send0 evs1) = Live \<longrightarrow>
            FetchJWTBundles L s fs0 send0 (evs1 @ [Rotated fs sr])
              = (fst (FetchJWTBundles L s fs0 send0 evs1) @ [Log ''FetchJWTBundles'' err], Live)
            \<and> FetchJWTBundles L s fs0 send0 (evs1 @ Rotated fs sr # evs2)
              = (fst (FetchJWTBundles L s fs0 send0 evs1) @ Log ''FetchJWTBundles'' err
                   # drop (length (fst (FetchJWTBundles L s fs0 send0 evs1)))
                       (fst (FetchJWTBundles L s fs0 send0 (evs1 @ evs2))),
                 snd (FetchJWTBundles L s fs0 send0 (evs1 @ evs2)))
            \<and> (\<forall>fs' resp'. buildJWTBundlesResponse L fs' s = Inr resp' \<longrightarrow>
                  FetchJWTBundles L s fs0 send0 (evs1 @ [Rotated fs sr, Rotated fs' None])
                    = (fst (FetchJWTBundles L s fs0 send0 evs1)
                         @ [Log ''FetchJWTBundles'' err, Send (JWTBundlesPayload resp')], Live))))"
proof (intro conjI impI allI)
  assume e: "buildX509SVIDResponse L fs s = Inl err"
  then have b: "svid_builder L s fs = Inl err" by (simp add: builder_Inl)
  show "FetchX509SVID L s fs send0 evs = ([], Returned (ReturnStatus Internal err))"
    unfolding FetchX509SVID_def using b by (rule fetch_stream_initial_failure)
  show "session_step (svid_builder L s) ''FetchX509SVID'' Live (Rotated fs sr)
          = ([Log ''FetchX509SVID'' err], Live)"
    using b by simp
  show "session_run (svid_builder L s) ''FetchX509SVID'' Live (Rotated fs sr # evs)
          = (Log ''FetchX509SVID'' err
               # fst (session_run (svid_builder L s) ''FetchX509SVID'' Live evs),
             snd (session_run (svid_builder L s) ''FetchX509SVID'' Live evs))"
    using b by (rule session_run_live_failure)
  assume live: "snd (FetchX509SVID L s fs0 send0 evs1) = Live"
  then have live': "snd (fetch_stream (svid_builder L s) ''FetchX509SVID'' fs0 send0 evs1) = Live"
    by (simp add: FetchX509SVID_def)
  show "FetchX509SVID L s fs0 send0 (evs1 @ [Rotated fs sr])
              = (fst (FetchX509SVID L s fs0 send0 evs1) @ [Log ''FetchX509SVID'' err], Live)"
    unfolding FetchX509SVID_def by (rule fetch_stream_live_failure(1) [OF live' b])
  show "FetchX509SVID L s fs0 send0 (evs1 @ Rotated fs sr # evs2)
              = (fst (FetchX509SVID L s fs0 send0 evs1) @ Log ''FetchX509SVID'' err
                   # drop (length (fst (FetchX509SVID L s fs0 send0 evs1)))
                       (fst (FetchX509SVID L s fs0 send0 (evs1 @ evs2))),
                 snd (FetchX509SVID L s fs0 send0 (evs1 @ evs2)))"
    unfolding FetchX509SVID_def by (rule fetch_stream_live_failure(2) [OF live' b])
  fix fs' resp'
  assume "buildX509SVIDResponse L fs' s = Inr resp'"
  then have "svid_builder L s fs' = Inr (SVIDPayload resp')"
    by (rule builder_Inr)
  then show "FetchX509SVID L s fs0 send0 (evs1 @ [Rotated fs sr, Rotated fs' None])
                    = (fst (FetchX509SVID L s fs0 send0 evs1)
                         @ [Log ''FetchX509SVID'' err, Send (SVIDPayload resp')], Live)"
    unfolding FetchX509SVID_def by (rule fetch_stream_live_failure(3) [OF live' b])
next
  assume e: "buildX509BundlesResponse L fs s = Inl err"
  then have b: "x509_bundles_builder L s fs = Inl err" by (simp add: builder_Inl)
  show "FetchX509Bundles L s fs send0 evs = ([], Returned (ReturnStatus Internal err))"
    unfolding FetchX509Bundles_def using b by (rule fetch_stream_initial_failure)
  show "session_step (x509_bundles_builder L s) ''FetchX509Bundles'' Live (Rotated fs sr)
          = ([Log ''FetchX509Bundles'' err], Live)"
    using b by simp
  show "session_run (x509_bundles_builder L s) ''FetchX509Bundles'' Live (Rotated fs sr # evs)
          = (Log ''FetchX509Bundles'' err
               # fst (session_run (x509_bundles_builder L s) ''FetchX509Bundles'' Live evs),
             snd (session_run (x509_bundles_builder L s) ''FetchX509Bundles'' Live evs))"
    using b by (rule session_run_live_failure)
  assume live: "snd (FetchX509Bundles L s fs0 send0 evs1) = Live"
  then have live': "snd (fetch_stream (x509_bundles_builder L s) ''FetchX509Bundles'' fs0 send0 evs1) = Live"
    by (simp add: FetchX509Bundles_def)
  show "FetchX509Bundles L s fs0 send0 (evs1 @ [Rotated fs sr])
              = (fst (FetchX509Bundles L s fs0 send0 evs1) @ [Log ''FetchX509Bundles'' err], Live)"
    unfolding FetchX509Bundles_def by (rule fetch_stream_live_failure(1) [OF live' b])
  show "FetchX509Bundles L s fs0 send0 (evs1 @ Rotated fs sr # evs2)
              = (fst (FetchX509Bundles L s fs0 send0 evs1) @ Log ''FetchX509Bundles'' err
                   # drop (length (fst (FetchX509Bundles L s fs0 send0 evs1)))
                       (fst (FetchX509Bundles L s fs0 send0 (evs1 @ evs2))),
                 snd (FetchX509Bundles L s fs0 send0 (evs1 @ evs2)))"
    unfolding FetchX509Bundles_def by (rule fetch_stream_live_failure(2) [OF live' b])
  fix fs' resp'
  assume "buildX509BundlesResponse L fs' s = Inr resp'"
  then have "x509_bundles_builder L s fs' = Inr (X509BundlesPayload resp')"
    by (rule builder_Inr)
  then show "FetchX509Bundles L s fs0 send0 (evs1 @ [Rotated fs sr, Rotated fs' None])
                    = (fst (FetchX509Bundles L s fs0 send0 evs1)
                         @ [Log ''FetchX509Bundles'' err, Send (X509BundlesPayload resp')], Live)"
    unfolding FetchX509Bundles_def by (rule fetch_stream_live_failure(3) [OF live' b])
next
  assume e: "buildJWTBundlesResponse L fs s = Inl err"
  then have b: "jwt_bundles_builder L s fs = Inl err" by (simp add: builder_Inl)
  show "FetchJWTBundles L s fs send0 evs = ([], Returned (ReturnStatus Internal err))"
    unfolding FetchJWTBundles_def using b by (rule fetch_stream_initial_failure)
  show "session_step (jwt_bundles_builder L s) ''FetchJWTBundles'' Live (Rotated fs sr)
          = ([Log ''FetchJWTBundles'' err], Live)"
    using b by simp
  show "session_run (jwt_bundles_builder L s) ''FetchJWTBundles'' Live (Rotated fs sr # evs)
          = (Log ''FetchJWTBundles'' err
               # fst (session_run (jwt_bundles_builder L s) ''FetchJWTBundles'' Live evs),
             snd (session_run (jwt_bundles_builder L s) ''FetchJWTBundles'' Live evs))"
    using b by (rule session_run_live_failure)
  assume live: "snd (FetchJWTBundles L s fs0 send0 evs1) = Live"
  then have live': "snd (fetch_stream (jwt_bundles_builder L s) ''FetchJWTBundles'' fs0 send0 evs1) = Live"
    by (simp add: FetchJWTBundles_def)
  show "FetchJWTBundles L s fs0 send0 (evs1 @ [Rotated fs sr])
              = (fst (FetchJWTBundles L s fs0 send0 evs1) @ [Log ''FetchJWTBundles'' err], Live)"
    unfolding FetchJWTBundles_def by (rule fetch_stream_live_failure(1) [OF live' b])
  show "FetchJWTBundles L s fs0 send0 (evs1 @ Rotated fs sr # evs2)
              = (fst (FetchJWTBundles L s fs0 send0 evs1) @ Log ''FetchJWTBundles'' err
                   # drop (length (fst (FetchJWTBundles L s fs0 send0 evs1)))
                       (fst (FetchJWTBundles L s fs0 send0 (evs1 @ evs2))),
                 snd (FetchJWTBundles L s fs0 send0 (evs1 @ evs2)))"
    unfolding FetchJWTBundles_def by (rule fetch_stream_live_failure(2) [OF live' b])
  fix fs' resp'
  assume "buildJWTBundlesResponse L fs' s = Inr resp'"
  then have "jwt_bundles_builder L s fs' = Inr (JWTBundlesPayload resp')"
    by (rule builder_Inr)
  then show "FetchJWTBundles L s fs0 send0 (evs1 @ [Rotated fs sr, Rotated fs' None])
                    = (fst (FetchJWTBundles L s fs0 send0 evs1)
                         @ [Log ''FetchJWTBundles'' err, Send (JWTBundlesPayload resp')], Live)"
    unfolding FetchJWTBundles_def by (rule fetch_stream_live_failure(3) [OF live' b])
qed

theorem build_errors_fatal_at_start_swallowed_when_live_witness:
  "FetchX509SVID demo_lib demo_server Map.empty None [Rotated demo_fs1 None]
     = ([], Returned (ReturnStatus Internal (LoadCertificates (ReadFailed ''certificates.pem''))))
   \<and> FetchX509Bundles demo_lib demo_server Map.empty None [Rotated demo_fs1 None]
     = ([], Returned (ReturnStatus Internal (LoadCertificates (ReadFailed ''certificates.pem''))))
   \<and> FetchJWTBundles demo_lib demo_server Map.empty None [Rotated demo_fs1 None]
     = ([], Returned (ReturnStatus Internal (LoadTrustBundles (ReadFailed ''trust_bundles.json''))))
   \<and> FetchX509SVID demo_lib demo_server demo_fs1 None
        [Rotated Map.empty None, Rotated demo_fs1 None]
     = ([Send (SVIDPayload demo_svid1), BcastSubscribe,
         Log ''FetchX509SVID'' (LoadCertificates (ReadFailed ''certificates.pem'')),
         Send (SVIDPayload demo_svid1)], Live)
   \<and> FetchX509Bundles demo_lib demo_server demo_fs1 None
        [Rotated Map.empty None, Rotated demo_fs1 None]
     = ([Send (X509BundlesPayload demo_x509_bundles), BcastSubscribe,
         Log ''FetchX509Bundles'' (LoadCertificates (ReadFailed ''certificates.pem'')),
         Send (X509BundlesPayload demo_x509_bundles)], Live)
   \<and> FetchJWTBundles demo_lib demo_server demo_fs_no_certs None
        [Rotated Map.empty None, Rotated demo_fs_no_certs None]
     = ([Send (JWTBundlesPayload demo_jwt_bundles), BcastSubscribe,
         Log ''FetchJWTBundles'' (LoadTrustBundles (ReadFailed ''trust_bundles.json'')),
         Send (JWTBundlesPayload demo_jwt_bundles)], Live)
   \<and> FetchX509SVID demo_lib demo_server demo_fs1 None [Rotated Map.empty None, CtxDone]
     = ([Send (SVIDPayload demo_svid1), BcastSubscribe,
         Log ''FetchX509SVID'' (LoadCertificates (ReadFailed ''certificates.pem'')),
         BcastUnsubscribe], Returned ReturnNil)"
proof -
  let ?e1 = "LoadCertificates (ReadFailed ''certificates.pem'')"
  let ?e3 = "LoadTrustBundles (ReadFailed ''trust_bundles.json'')"
  note t1 = build_errors_fatal_at_start_swallowed_when_live [where L = demo_lib and s = demo_server
      and fs = Map.empty and ?send0.0 = None and evs = "[Rotated demo_fs1 None]" and sr = None
      and err = ?e1 and ?fs0.0 = demo_fs1 and ?evs1.0 = "[]" and ?evs2.0 = "[CtxDone]",
      THEN conjunct1, THEN mp, OF demo_empty_fs(1)]
  note t2 = build_errors_fatal_at_start_swallowed_when_live [where L = demo_lib and s = demo_server
      and fs = Map.empty and ?send0.0 = None and evs = "[Rotated demo_fs1 None]" and sr = None
      and err = ?e1 and ?fs0.0 = demo_fs1 and ?evs1.0 = "[]" and ?evs2.0 = "[CtxDone]",
      THEN conjunct2, THEN conjunct1, THEN mp, OF demo_empty_fs(2)]
  note t3 = build_errors_fatal_at_start_swallowed_when_live [where L = demo_lib and s = demo_server
      and fs = Map.empty and ?send0.0 = None and evs = "[Rotated demo_fs1 None]" and sr = None
      and err = ?e3 and ?fs0.0 = demo_fs_no_certs and ?evs1.0 = "[]" and ?evs2.0 = "[CtxDone]",
      THEN conjunct2, THEN conjunct2, THEN mp, OF demo_empty_fs(3)]
  have s1: "FetchX509SVID demo_lib demo_server demo_fs1 None []
      = ([Send (SVIDPayload demo_svid1), BcastSubscribe], Live)"
    by (simp add: FetchX509SVID_def fetch_stream_def session_start_def
        builder_Inr(1) [OF demo_svid1])
  have s2: "FetchX509Bundles demo_lib demo_server demo_fs1 None []
      = ([Send (X509BundlesPayload demo_x509_bundles), BcastSubscribe], Live)"
    by (simp add: FetchX509Bundles_def fetch_stream_def session_start_def
        builder_Inr(2) [OF demo_x509_bundles_build])
  have s3: "FetchJWTBundles demo_lib demo_server demo_fs_no_certs None []
      = ([Send (JWTBundlesPayload demo_jwt_bundles), BcastSubscribe], Live)"
    by (simp add: FetchJWTBundles_def fetch_stream_def session_start_def
        builder_Inr(3) [OF demo_jwt_bundles_build])
  have l1: "snd (FetchX509SVID demo_lib demo_server demo_fs1 None []) = Live"
    by (simp add: s1)
  have l2: "snd (FetchX509Bundles demo_lib demo_server demo_fs1 None []) = Live"
    by (simp add: s2)
  have l3: "snd (FetchJWTBundles demo_lib demo_server demo_fs_no_certs None []) = Live"
    by (simp add: s3)
  note live1 = t1 [THEN conjunct2, THEN conjunct2, THEN conjunct2, THEN mp, OF l1]
  note live2 = t2 [THEN conjunct2, THEN conjunct2, THEN conjunct2, THEN mp, OF l2]
  note live3 = t3 [THEN conjunct2, THEN conjunct2, THEN conjunct2, THEN mp, OF l3]
  note r1 = live1 [THEN conjunct2, THEN conjunct2, THEN spec, THEN spec, THEN mp, OF demo_svid1]
  note r2 = live2 [THEN conjunct2, THEN conjunct2, THEN spec, THEN spec, THEN mp,
      OF demo_x509_bundles_build]
  note r3 = live3 [THEN conjunct2, THEN conjunct2, THEN spec, THEN spec, THEN mp,
      OF demo_jwt_bundles_build]
  have done0: "FetchX509SVID demo_lib demo_server demo_fs1 None [CtxDone]
      = ([Send (SVIDPayload demo_svid1), BcastSubscribe, BcastUnsubscribe], Returned ReturnNil)"
    by (simp add: FetchX509SVID_def fetch_stream_def session_start_def
        builder_Inr(1) [OF demo_svid1])
  have d1: "FetchX509SVID demo_lib demo_server demo_fs1 None [Rotated Map.empty None, CtxDone]
     = ([Send (SVIDPayload demo_svid1), BcastSubscribe,
         Log ''FetchX509SVID'' (LoadCertificates (ReadFailed ''certificates.pem'')),
         BcastUnsubscribe], Returned ReturnNil)"
    using live1 [THEN conjunct2, THEN conjunct1] by (simp add: s1 done0)
  from t1 [THEN conjunct1] t2 [THEN conjunct1] t3 [THEN conjunct1] r1 r2 r3 d1
  show ?thesis by (simp add: s1 s2 s3)
qed

text \<open>
  C3 (as amended). \<^verbatim>\<open>loadPrivateKeyPKCS8DER\<close> returns the bytes of a \<^verbatim>\<open>PRIVATE KEY\<close>
  block as they are, and for an \<^verbatim>\<open>EC PRIVATE KEY\<close> or \<^verbatim>\<open>RSA PRIVATE KEY\<close> block the
  library's PKCS#8 marshalling of the parsed key. So the output for a PKCS#8 file and the
  output for an EC or RSA file of the same key are the same bytes exactly when the PKCS#8
  file already holds that marshalling.
\<close>

theorem pkcs8_block_verbatim_legacy_block_marshalled:
  assumes "fs1 (filepath_Join L (credsDir s) name) = Some data1"
    and "fst (Rep_pem_decoder (pem_Decode L) data1) = Some b1"
    and "Block_Type b1 = ''PRIVATE KEY''"
    and "fs2 (filepath_Join L (credsDir s) name) = Some data2"
    and "fst (Rep_pem_decoder (pem_Decode L) data2) = Some b2"
    and "(Block_Type b2 = ''EC PRIVATE KEY'' \<and> x509_ParseECPrivateKey L (Block_Bytes b2) = Inr k)
       \<or> (Block_Type b2 = ''RSA PRIVATE KEY'' \<and> x509_ParsePKCS1PrivateKey L (Block_Bytes b2) = Inr k)"
  shows "loadPrivateKeyPKCS8DER L fs1 s name = Inr (Block_Bytes b1)
     \<and> loadPrivateKeyPKCS8DER L fs2 s name
         = (case x509_MarshalPKCS8PrivateKey L k of
              Inl e \<Rightarrow> Inl (MarshalPKCS8Failed e)
            | Inr der \<Rightarrow> Inr der)
     \<and> ((loadPrivateKeyPKCS8DER L fs2 s name = loadPrivateKeyPKCS8DER L fs1 s name)
          = (x509_MarshalPKCS8PrivateKey L k = Inr (Block_Bytes b1)))"
proof -
  have one: "loadPrivateKeyPKCS8DER L fs1 s name = Inr (Block_Bytes b1)"
    using load_key_block [where fs = fs1, OF assms(1,2)] assms(3) by simp
  have two: "loadPrivateKeyPKCS8DER L fs2 s name
         = (case x509_MarshalPKCS8PrivateKey L k of
              Inl e \<Rightarrow> Inl (MarshalPKCS8Failed e)
            | Inr der \<Rightarrow> Inr der)"
    using load_key_block [where fs = fs2, OF assms(4,5)] assms(6) by auto
  have "(loadPrivateKeyPKCS8DER L fs2 s name = loadPrivateKeyPKCS8DER L fs1 s name)
          = (x509_MarshalPKCS8PrivateKey L k = Inr (Block_Bytes b1))"
    unfolding one two by (cases "x509_MarshalPKCS8PrivateKey L k") auto
  with one two show ?thesis by blast
qed

theorem pkcs8_block_verbatim_legacy_block_marshalled_witness:
  "loadPrivateKeyPKCS8DER demo_lib (demo_key_fs ''[PRIVATE KEY|pkcs8:ec:K1]'') demo_server
      ''private_key.pem'' = Inr ''pkcs8:ec:K1''
   \<and> loadPrivateKeyPKCS8DER demo_lib (demo_key_fs ''[EC PRIVATE KEY|ec:K1]'') demo_server
      ''private_key.pem'' = Inr ''pkcs8:ec:K1''
   \<and> loadPrivateKeyPKCS8DER demo_lib (demo_key_fs ''[PRIVATE KEY|pkcs8:rsa:K2]'') demo_server
      ''private_key.pem'' = Inr ''pkcs8:rsa:K2''
   \<and> loadPrivateKeyPKCS8DER demo_lib (demo_key_fs ''[RSA PRIVATE KEY|rsa:K2]'') demo_server
      ''private_key.pem'' = Inr ''pkcs8:rsa:K2''"
proof -
  let ?p1 = "\<lparr>Block_Type = ''PRIVATE KEY'', Block_Headers = [], Block_Bytes = ''pkcs8:ec:K1''\<rparr>"
  let ?e1 = "\<lparr>Block_Type = ''EC PRIVATE KEY'', Block_Headers = [], Block_Bytes = ''ec:K1''\<rparr>"
  let ?p2 = "\<lparr>Block_Type = ''PRIVATE KEY'', Block_Headers = [], Block_Bytes = ''pkcs8:rsa:K2''\<rparr>"
  let ?r2 = "\<lparr>Block_Type = ''RSA PRIVATE KEY'', Block_Headers = [], Block_Bytes = ''rsa:K2''\<rparr>"
  have d1: "fst (Rep_pem_decoder (pem_Decode demo_lib) ''[PRIVATE KEY|pkcs8:ec:K1]'') = Some ?p1"
    by (simp add: demo_lib_def Rep_demo_pem_Decode demo_pem_fun_def demo_pem_block_def)
  have d2: "fst (Rep_pem_decoder (pem_Decode demo_lib) ''[EC PRIVATE KEY|ec:K1]'') = Some ?e1"
    by (simp add: demo_lib_def Rep_demo_pem_Decode demo_pem_fun_def demo_pem_block_def)
  have d3: "fst (Rep_pem_decoder (pem_Decode demo_lib) ''[PRIVATE KEY|pkcs8:rsa:K2]'') = Some ?p2"
    by (simp add: demo_lib_def Rep_demo_pem_Decode demo_pem_fun_def demo_pem_block_def)
  have d4: "fst (Rep_pem_decoder (pem_Decode demo_lib) ''[RSA PRIVATE KEY|rsa:K2]'') = Some ?r2"
    by (simp add: demo_lib_def Rep_demo_pem_Decode demo_pem_fun_def demo_pem_block_def)
  have t1: "Block_Type ?p1 = ''PRIVATE KEY''" and t3: "Block_Type ?p2 = ''PRIVATE KEY''"
    by simp_all
  have k1: "(Block_Type ?e1 = ''EC PRIVATE KEY''
        \<and> x509_ParseECPrivateKey demo_lib (Block_Bytes ?e1) = Inr (ECDSA_PrivateKey ''K1''))
      \<or> (Block_Type ?e1 = ''RSA PRIVATE KEY''
        \<and> x509_ParsePKCS1PrivateKey demo_lib (Block_Bytes ?e1) = Inr (ECDSA_PrivateKey ''K1''))"
    by (simp add: demo_lib_def demo_ParseECPrivateKey_def)
  have k2: "(Block_Type ?r2 = ''EC PRIVATE KEY''
        \<and> x509_ParseECPrivateKey demo_lib (Block_Bytes ?r2) = Inr (RSA_PrivateKey ''K2''))
      \<or> (Block_Type ?r2 = ''RSA PRIVATE KEY''
        \<and> x509_ParsePKCS1PrivateKey demo_lib (Block_Bytes ?r2) = Inr (RSA_PrivateKey ''K2''))"
    by (simp add: demo_lib_def demo_ParsePKCS1PrivateKey_def)
  note a = pkcs8_block_verbatim_legacy_block_marshalled
      [where ?fs1.0 = "demo_key_fs ''[PRIVATE KEY|pkcs8:ec:K1]''"
         and ?fs2.0 = "demo_key_fs ''[EC PRIVATE KEY|ec:K1]''",
       OF demo_key_file d1 t1 demo_key_file d2 k1]
  note b = pkcs8_block_verbatim_legacy_block_marshalled
      [where ?fs1.0 = "demo_key_fs ''[PRIVATE KEY|pkcs8:rsa:K2]''"
         and ?fs2.0 = "demo_key_fs ''[RSA PRIVATE KEY|rsa:K2]''",
       OF demo_key_file d3 t3 demo_key_file d4 k2]
  from a b show ?thesis by (simp add: demo_lib_def)
qed

text \<open>
  C3 as stated fails: a PKCS#8 block that encodes the key in another valid way than the
  library writes it is passed through unchanged, so the output differs from the output
  for the EC encoding of the same key.
\<close>

theorem pkcs8_input_not_normalised:
  "demo_ParsePKCS8PrivateKey ''pkcs8+attr:ec:K1'' = Inr (ECDSA_PrivateKey ''K1'')
   \<and> x509_ParseECPrivateKey demo_lib ''ec:K1'' = Inr (ECDSA_PrivateKey ''K1'')
   \<and> loadPrivateKeyPKCS8DER demo_lib (demo_key_fs ''[PRIVATE KEY|pkcs8+attr:ec:K1]'') demo_server
        ''private_key.pem'' = Inr ''pkcs8+attr:ec:K1''
   \<and> loadPrivateKeyPKCS8DER demo_lib (demo_key_fs ''[EC PRIVATE KEY|ec:K1]'') demo_server
        ''private_key.pem'' = Inr ''pkcs8:ec:K1''
   \<and> loadPrivateKeyPKCS8DER demo_lib (demo_key_fs ''[PRIVATE KEY|pkcs8+attr:ec:K1]'') demo_server
        ''private_key.pem''
      \<noteq> loadPrivateKeyPKCS8DER demo_lib (demo_key_fs ''[EC PRIVATE KEY|ec:K1]'') demo_server
        ''private_key.pem''"
  by (simp add: loadPrivateKeyPKCS8DER_def demo_key_fs_def demo_ParsePKCS8PrivateKey_def demo_defs)

text \<open>
  C4 (as amended). \<^verbatim>\<open>loadPrivateKeyPKCS8DER\<close> fails with a read error when the file is
  unreadable, with "no PEM block" when no block decodes, with the parser's error when the
  bytes of an \<^verbatim>\<open>EC PRIVATE KEY\<close> or \<^verbatim>\<open>RSA PRIVATE KEY\<close> block are malformed, and with
  "unsupported PEM block type" for every other type but \<^verbatim>\<open>PRIVATE KEY\<close>. The bytes of a
  \<^verbatim>\<open>PRIVATE KEY\<close> block are returned without being parsed.
\<close>

theorem private_key_failures:
  "(fs (filepath_Join L (credsDir s) name) = None \<longrightarrow>
      loadPrivateKeyPKCS8DER L fs s name = Inl (ReadFailed name))
   \<and> (fs (filepath_Join L (credsDir s) name) = Some data
        \<and> fst (Rep_pem_decoder (pem_Decode L) data) = None \<longrightarrow>
      loadPrivateKeyPKCS8DER L fs s name = Inl (NoPEMBlock name))
   \<and> (fs (filepath_Join L (credsDir s) name) = Some data
        \<and> fst (Rep_pem_decoder (pem_Decode L) data) = Some b \<longrightarrow>
        (Block_Type b = ''EC PRIVATE KEY'' \<and> x509_ParseECPrivateKey L (Block_Bytes b) = Inl e \<longrightarrow>
           loadPrivateKeyPKCS8DER L fs s name = Inl (ParseECFailed e))
      \<and> (Block_Type b = ''RSA PRIVATE KEY'' \<and> x509_ParsePKCS1PrivateKey L (Block_Bytes b) = Inl e \<longrightarrow>
           loadPrivateKeyPKCS8DER L fs s name = Inl (ParseRSAFailed e))
      \<and> (Block_Type b \<noteq> ''PRIVATE KEY'' \<and> Block_Type b \<noteq> ''EC PRIVATE KEY''
           \<and> Block_Type b \<noteq> ''RSA PRIVATE KEY'' \<longrightarrow>
           loadPrivateKeyPKCS8DER L fs s name = Inl (UnsupportedPEMType (Block_Type b) name))
      \<and> (Block_Type b = ''PRIVATE KEY'' \<longrightarrow>
           loadPrivateKeyPKCS8DER L fs s name = Inr (Block_Bytes b)))"
proof (intro conjI impI)
  assume "fs (filepath_Join L (credsDir s) name) = None"
  then show "loadPrivateKeyPKCS8DER L fs s name = Inl (ReadFailed name)"
    by (simp add: loadPrivateKeyPKCS8DER_def)
next
  assume "fs (filepath_Join L (credsDir s) name) = Some data
        \<and> fst (Rep_pem_decoder (pem_Decode L) data) = None"
  then show "loadPrivateKeyPKCS8DER L fs s name = Inl (NoPEMBlock name)"
    by (simp add: loadPrivateKeyPKCS8DER_def)
next
  assume a: "fs (filepath_Join L (credsDir s) name) = Some data
        \<and> fst (Rep_pem_decoder (pem_Decode L) data) = Some b"
  note eq = load_key_block [where fs = fs, OF a [THEN conjunct1] a [THEN conjunct2]]
  {
    assume "Block_Type b = ''EC PRIVATE KEY'' \<and> x509_ParseECPrivateKey L (Block_Bytes b) = Inl e"
    then show "loadPrivateKeyPKCS8DER L fs s name = Inl (ParseECFailed e)"
      unfolding eq by simp
  next
    assume "Block_Type b = ''RSA PRIVATE KEY'' \<and> x509_ParsePKCS1PrivateKey L (Block_Bytes b) = Inl e"
    then show "loadPrivateKeyPKCS8DER L fs s name = Inl (ParseRSAFailed e)"
      unfolding eq by simp
  next
    assume "Block_Type b \<noteq> ''PRIVATE KEY'' \<and> Block_Type b \<noteq> ''EC PRIVATE KEY''
           \<and> Block_Type b \<noteq> ''RSA PRIVATE KEY''"
    then show "loadPrivateKeyPKCS8DER L fs s name = Inl (UnsupportedPEMType (Block_Type b) name)"
      unfolding eq by simp
  next
    assume "Block_Type b = ''PRIVATE KEY''"
    then show "loadPrivateKeyPKCS8DER L fs s name = Inr (Block_Bytes b)"
      unfolding eq by simp
  }
qed

theorem private_key_failures_witness:
  "loadPrivateKeyPKCS8DER demo_lib Map.empty demo_server ''private_key.pem''
     = Inl (ReadFailed ''private_key.pem'')
   \<and> loadPrivateKeyPKCS8DER demo_lib (demo_key_fs ''junk'') demo_server ''private_key.pem''
     = Inl (NoPEMBlock ''private_key.pem'')
   \<and> loadPrivateKeyPKCS8DER demo_lib (demo_key_fs ''[EC PRIVATE KEY|oops]'') demo_server
       ''private_key.pem'' = Inl (ParseECFailed ''x509: failed to parse EC private key'')
   \<and> loadPrivateKeyPKCS8DER demo_lib (demo_key_fs ''[RSA PRIVATE KEY|oops]'') demo_server
       ''private_key.pem'' = Inl (ParseRSAFailed ''x509: failed to parse RSA private key'')
   \<and> loadPrivateKeyPKCS8DER demo_lib (demo_key_fs ''[DSA PRIVATE KEY|dsa:K3]'') demo_server
       ''private_key.pem'' = Inl (UnsupportedPEMType ''DSA PRIVATE KEY'' ''private_key.pem'')
   \<and> loadPrivateKeyPKCS8DER demo_lib (demo_key_fs ''[PRIVATE KEY|oops]'') demo_server
       ''private_key.pem'' = Inr ''oops''"
proof -
  let ?ec = "\<lparr>Block_Type = ''EC PRIVATE KEY'', Block_Headers = [], Block_Bytes = ''oops''\<rparr>"
  let ?rsa = "\<lparr>Block_Type = ''RSA PRIVATE KEY'', Block_Headers = [], Block_Bytes = ''oops''\<rparr>"
  let ?dsa = "\<lparr>Block_Type = ''DSA PRIVATE KEY'', Block_Headers = [], Block_Bytes = ''dsa:K3''\<rparr>"
  let ?p8 = "\<lparr>Block_Type = ''PRIVATE KEY'', Block_Headers = [], Block_Bytes = ''oops''\<rparr>"
  have none: "Map.empty (filepath_Join demo_lib (credsDir demo_server) ''private_key.pem'') = None"
    by simp
  have junk: "demo_key_fs ''junk'' (filepath_Join demo_lib (credsDir demo_server) ''private_key.pem'')
        = Some ''junk''
      \<and> fst (Rep_pem_decoder (pem_Decode demo_lib) ''junk'') = None"
    by (simp add: demo_key_file) (simp add: demo_lib_def Rep_demo_pem_Decode demo_pem_fun_def demo_pem_block_def)
  have ec: "demo_key_fs ''[EC PRIVATE KEY|oops]''
          (filepath_Join demo_lib (credsDir demo_server) ''private_key.pem'')
        = Some ''[EC PRIVATE KEY|oops]''
      \<and> fst (Rep_pem_decoder (pem_Decode demo_lib) ''[EC PRIVATE KEY|oops]'') = Some ?ec"
    by (simp add: demo_key_file) (simp add: demo_lib_def Rep_demo_pem_Decode demo_pem_fun_def demo_pem_block_def)
  have ec': "Block_Type ?ec = ''EC PRIVATE KEY''
      \<and> x509_ParseECPrivateKey demo_lib (Block_Bytes ?ec) = Inl ''x509: failed to parse EC private key''"
    by (simp add: demo_lib_def demo_ParseECPrivateKey_def)
  have rsa: "demo_key_fs ''[RSA PRIVATE KEY|oops]''
          (filepath_Join demo_lib (credsDir demo_server) ''private_key.pem'')
        = Some ''[RSA PRIVATE KEY|oops]''
      \<and> fst (Rep_pem_decoder (pem_Decode demo_lib) ''[RSA PRIVATE KEY|oops]'') = Some ?rsa"
    by (simp add: demo_key_file) (simp add: demo_lib_def Rep_demo_pem_Decode demo_pem_fun_def demo_pem_block_def)
  have rsa': "Block_Type ?rsa = ''RSA PRIVATE KEY''
      \<and> x509_ParsePKCS1PrivateKey demo_lib (Block_Bytes ?rsa)
          = Inl ''x509: failed to parse RSA private key''"
    by (simp add: demo_lib_def demo_ParsePKCS1PrivateKey_def)
  have dsa: "demo_key_fs ''[DSA PRIVATE KEY|dsa:K3]''
          (filepath_Join demo_lib (credsDir demo_server) ''private_key.pem'')
        = Some ''[DSA PRIVATE KEY|dsa:K3]''
      \<and> fst (Rep_pem_decoder (pem_Decode demo_lib) ''[DSA PRIVATE KEY|dsa:K3]'') = Some ?dsa"
    by (simp add: demo_key_file) (simp add: demo_lib_def Rep_demo_pem_Decode demo_pem_fun_def demo_pem_block_def)
  have dsa': "Block_Type ?dsa \<noteq> ''PRIVATE KEY'' \<and> Block_Type ?dsa \<noteq> ''EC PRIVATE KEY''
           \<and> Block_Type ?dsa \<noteq> ''RSA PRIVATE KEY''"
    by simp
  have p8: "demo_key_fs ''[PRIVATE KEY|oops]''
          (filepath_Join demo_lib (credsDir demo_server) ''private_key.pem'')
        = Some ''[PRIVATE KEY|oops]''
      \<and> fst (Rep_pem_decoder (pem_Decode demo_lib) ''[PRIVATE KEY|oops]'') = Some ?p8"
    by (simp add: demo_key_file) (simp add: demo_lib_def Rep_demo_pem_Decode demo_pem_fun_def demo_pem_block_def)
  have p8': "Block_Type ?p8 = ''PRIVATE KEY''"
    by simp
  note r1 = private_key_failures [where fs = Map.empty and L = demo_lib and s = demo_server
      and name = "''private_key.pem''", THEN conjunct1, THEN mp, OF none]
  note r2 = private_key_failures [where fs = "demo_key_fs ''junk''" and L = demo_lib
      and s = demo_server and name = "''private_key.pem''" and data = "''junk''",
      THEN conjunct2, THEN conjunct1, THEN mp, OF junk]
  note r3 = private_key_failures [where fs = "demo_key_fs ''[EC PRIVATE KEY|oops]''"
      and L = demo_lib and s = demo_server and name = "''private_key.pem''"
      and data = "''[EC PRIVATE KEY|oops]''" and b = ?ec
      and e = "''x509: failed to parse EC private key''",
      THEN conjunct2, THEN conjunct2, THEN mp, OF ec, THEN conjunct1, THEN mp, OF ec']
  note r4 = private_key_failures [where fs = "demo_key_fs ''[RSA PRIVATE KEY|oops]''"
      and L = demo_lib and s = demo_server and name = "''private_key.pem''"
      and data = "''[RSA PRIVATE KEY|oops]''" and b = ?rsa
      and e = "''x509: failed to parse RSA private key''",
      THEN conjunct2, THEN conjunct2, THEN mp, OF rsa, THEN conjunct2, THEN conjunct1, THEN mp,
      OF rsa']
  note r5 = private_key_failures [where fs = "demo_key_fs ''[DSA PRIVATE KEY|dsa:K3]''"
      and L = demo_lib and s = demo_server and name = "''private_key.pem''"
      and data = "''[DSA PRIVATE KEY|dsa:K3]''" and b = ?dsa,
      THEN conjunct2, THEN conjunct2, THEN mp, OF dsa, THEN conjunct2, THEN conjunct2,
      THEN conjunct1, THEN mp, OF dsa']
  note r6 = private_key_failures [where fs = "demo_key_fs ''[PRIVATE KEY|oops]''"
      and L = demo_lib and s = demo_server and name = "''private_key.pem''"
      and data = "''[PRIVATE KEY|oops]''" and b = ?p8,
      THEN conjunct2, THEN conjunct2, THEN mp, OF p8, THEN conjunct2, THEN conjunct2,
      THEN conjunct2, THEN mp, OF p8']
  from r1 r2 r3 r4 r5 r6 show ?thesis by simp
qed

text \<open>
  C4 as stated fails: the function succeeds on a \<^verbatim>\<open>PRIVATE KEY\<close> block whose bytes are
  no key at all.
\<close>

theorem malformed_pkcs8_block_accepted:
  "demo_ParsePKCS8PrivateKey ''garbage'' = Inl ''x509: failed to parse private key''
   \<and> loadPrivateKeyPKCS8DER demo_lib demo_fs_garbage demo_server ''private_key.pem''
       = Inr ''garbage''"
  by (simp add: loadPrivateKeyPKCS8DER_def demo_fs_garbage_def demo_ParsePKCS8PrivateKey_def
      demo_defs)

text \<open>
  C9. If an \<^verbatim>\<open>x5c\<close> entry of an \<^verbatim>\<open>x509-svid\<close> key of a trust domain other than the
  local one is not valid base64, \<^verbatim>\<open>buildX509BundlesResponse\<close> returns an error and no
  bundle map: the initial build ends the session with an internal error, and a rebuild in
  the live state logs the error and sends nothing.
\<close>

theorem bad_x5c_fails_whole_x509_bundle_build:
  assumes "loadTrustBundles L fs s = Inr tb"
    and "(d, e) \<in> set (TrustDomains tb)"
    and "k \<in> set (Keys e)"
    and "Use k = ''x509-svid''"
    and "c \<in> set (X5C k)"
    and "base64_DecodeString L c = Inl msg"
    and "\<forall>ders leaf. loadPEMDERs L fs s ''certificates.pem'' = Inr ders
            \<and> x509_ParseCertificate L (hd ders) = Inr leaf \<longrightarrow>
          URL_Host (hd (URIs leaf)) \<noteq> d"
  shows "\<exists>err. buildX509BundlesResponse L fs s = Inl err
           \<and> FetchX509Bundles L s fs send0 evs = ([], Returned (ReturnStatus Internal err))
           \<and> session_step (x509_bundles_builder L s) ''FetchX509Bundles'' Live (Rotated fs sr)
               = ([Log ''FetchX509Bundles'' err], Live)"
proof -
  have bad: "isl (x509FederatedBundles L localTD (TrustDomains tb) m)"
    if "''spiffe://'' @ d \<noteq> localTD" for localTD m
    using assms(2) that assms(3,4,5,6) by (rule x509FederatedBundles_bad)
  have "isl (buildX509BundlesResponse L fs s)"
  proof (cases "loadPEMDERs L fs s ''certificates.pem''")
    case (Inl a)
    then show ?thesis by (simp add: buildX509BundlesResponse_def)
  next
    case ders: (Inr ders)
    show ?thesis
    proof (cases "x509_ParseCertificate L (hd ders)")
      case (Inl a)
      with ders show ?thesis by (simp add: buildX509BundlesResponse_def)
    next
      case leaf: (Inr leaf)
      with ders assms(7) have "URL_Host (hd (URIs leaf)) \<noteq> d" by blast
      then have "''spiffe://'' @ d \<noteq> ''spiffe://'' @ URL_Host (hd (URIs leaf))" by simp
      note ne = this
      show ?thesis
      proof (cases "loadPEMDERs L fs s ''ca_certificates.pem''")
        case (Inl a)
        with ders leaf show ?thesis by (simp add: buildX509BundlesResponse_def Let_def)
      next
        case ca: (Inr caDERs)
        let ?local = "''spiffe://'' @ URL_Host (hd (URIs leaf))"
        have "isl (x509FederatedBundles L ?local (TrustDomains tb)
            (Map.empty(?local \<mapsto> concatDERs caDERs)))"
          using ne by (rule bad)
        then obtain err where "x509FederatedBundles L ?local (TrustDomains tb)
            (Map.empty(?local \<mapsto> concatDERs caDERs)) = Inl err"
          by (cases "x509FederatedBundles L ?local (TrustDomains tb)
            (Map.empty(?local \<mapsto> concatDERs caDERs))") auto
        with ders leaf ca assms(1) show ?thesis
          by (simp add: buildX509BundlesResponse_def Let_def)
      qed
    qed
  qed
  then obtain err where e: "buildX509BundlesResponse L fs s = Inl err"
    by (cases "buildX509BundlesResponse L fs s") auto
  then have b: "x509_bundles_builder L s fs = Inl err" by (simp add: builder_Inl)
  have "FetchX509Bundles L s fs send0 evs = ([], Returned (ReturnStatus Internal err))"
    unfolding FetchX509Bundles_def using b by (rule fetch_stream_initial_failure)
  moreover have "session_step (x509_bundles_builder L s) ''FetchX509Bundles'' Live (Rotated fs sr)
      = ([Log ''FetchX509Bundles'' err], Live)"
    using b by simp
  ultimately show ?thesis using e by blast
qed

theorem bad_x5c_fails_whole_x509_bundle_build_witness:
  "buildX509BundlesResponse demo_lib demo_fs_bad_x5c demo_server
     = Inl (DecodeX5CFailed ''bad.org'' ''illegal base64 data'')
   \<and> FetchX509Bundles demo_lib demo_server demo_fs_bad_x5c None [CtxDone]
     = ([], Returned (ReturnStatus Internal (DecodeX5CFailed ''bad.org'' ''illegal base64 data'')))
   \<and> session_step (x509_bundles_builder demo_lib demo_server) ''FetchX509Bundles'' Live
        (Rotated demo_fs_bad_x5c None)
     = ([Log ''FetchX509Bundles'' (DecodeX5CFailed ''bad.org'' ''illegal base64 data'')], Live)"
proof -
  let ?k = "demo_key ''x509-svid'' [''not!base64'']"
  let ?e = "\<lparr>Keys = [?k], SpiffeSequence = 1\<rparr>"
  have h1: "loadTrustBundles demo_lib demo_fs_bad_x5c demo_server = Inr doc_bad_x5c"
    by (simp add: loadTrustBundles_def demo_fs_bad_x5c_def demo_lib_def demo_server_def
        demo_Unmarshal_def)
  have h2: "(''bad.org'', ?e) \<in> set (TrustDomains doc_bad_x5c)"
    by (simp add: doc_bad_x5c_def)
  have h3: "?k \<in> set (Keys ?e)" by simp
  have h4: "Use ?k = ''x509-svid''" by (simp add: demo_key_def)
  have h5: "''not!base64'' \<in> set (X5C ?k)" by (simp add: demo_key_def)
  have h6: "base64_DecodeString demo_lib ''not!base64'' = Inl ''illegal base64 data''"
    by (simp add: demo_lib_def demo_DecodeString_def)
  have ld: "loadPEMDERs demo_lib demo_fs_bad_x5c demo_server ''certificates.pem''
      = Inr [''cert:example.org'']"
    by (simp add: loadPEMDERs_def demo_fs_bad_x5c_def demo_lib_def demo_server_def
        Rep_demo_pem_Decode demo_pem_fun_def demo_pem_block_def loadPEMDERs_loop.simps)
  have h7: "\<forall>ders leaf. loadPEMDERs demo_lib demo_fs_bad_x5c demo_server ''certificates.pem'' = Inr ders
            \<and> x509_ParseCertificate demo_lib (hd ders) = Inr leaf \<longrightarrow>
          URL_Host (hd (URIs leaf)) \<noteq> ''bad.org''"
    unfolding ld by (auto simp: demo_lib_def demo_ParseCertificate_def)
  have "\<exists>err. buildX509BundlesResponse demo_lib demo_fs_bad_x5c demo_server = Inl err
           \<and> FetchX509Bundles demo_lib demo_server demo_fs_bad_x5c None [CtxDone]
               = ([], Returned (ReturnStatus Internal err))
           \<and> session_step (x509_bundles_builder demo_lib demo_server) ''FetchX509Bundles'' Live
                (Rotated demo_fs_bad_x5c None)
               = ([Log ''FetchX509Bundles'' err], Live)"
    by (rule bad_x5c_fails_whole_x509_bundle_build [OF h1 h2 h3 h4 h5 h6 h7])
  then show ?thesis
    unfolding demo_bad_x5c_build by (elim exE conjE) simp
qed

text \<open>
  C10. \<^verbatim>\<open>loadPEMDERs\<close> does not look at the type of a block: relabelling every block
  leaves its result unchanged, and for every file the result is the list of the bytes of
  all the blocks the decoder yields, whatever their types. The \<^verbatim>\<open>X509Svid\<close> field of the
  SVID response is the concatenation of the bytes of all decoded blocks of
  \<^verbatim>\<open>certificates.pem\<close>; its \<^verbatim>\<open>Bundle\<close> field, and the local entry of the X.509 bundles,
  are the concatenation of the bytes of all decoded blocks of \<^verbatim>\<open>ca_certificates.pem\<close>.
  The certificate parser is applied to the first block of \<^verbatim>\<open>certificates.pem\<close> only: a
  parser that agrees with the library's on that block gives the same SVID response and
  the same X.509 bundles.
\<close>

theorem pem_block_types_not_inspected:
  "loadPEMDERs (L\<lparr>pem_Decode := relabel_decoder f (pem_Decode L)\<rparr>) fs s name
     = loadPEMDERs L fs s name
   \<and> (fs (filepath_Join L (credsDir s) name) = Some ndata
        \<and> decodes_chain (pem_Decode L) ndata nbs nrest \<and> decoding_stops (pem_Decode L) nrest \<longrightarrow>
      loadPEMDERs L fs s name = Inr (map Block_Bytes nbs))
   \<and> (fs (filepath_Join L (credsDir s) ''certificates.pem'') = Some data
        \<and> decodes_chain (pem_Decode L) data bs rest \<and> decoding_stops (pem_Decode L) rest
        \<and> buildX509SVIDResponse L fs s = Inr resp \<longrightarrow>
      map X509Svid (Svids resp) = [concat (map Block_Bytes bs)])
   \<and> (fs (filepath_Join L (credsDir s) ''ca_certificates.pem'') = Some cadata
        \<and> decodes_chain (pem_Decode L) cadata cas carest \<and> decoding_stops (pem_Decode L) carest \<longrightarrow>
        (buildX509SVIDResponse L fs s = Inr resp \<longrightarrow>
           map Bundle (Svids resp) = [concat (map Block_Bytes cas)])
        \<and> (buildX509BundlesResponse L fs s = Inr bresp
             \<and> loadPEMDERs L fs s ''certificates.pem'' = Inr ders
             \<and> x509_ParseCertificate L (hd ders) = Inr leaf \<longrightarrow>
           X509_Bundles bresp (''spiffe://'' @ URL_Host (hd (URIs leaf)))
             = Some (concat (map Block_Bytes cas))))
   \<and> (loadPEMDERs L fs s ''certificates.pem'' = Inr ders
        \<and> p (hd ders) = x509_ParseCertificate L (hd ders) \<longrightarrow>
      buildX509SVIDResponse (L\<lparr>x509_ParseCertificate := p\<rparr>) fs s = buildX509SVIDResponse L fs s
      \<and> buildX509BundlesResponse (L\<lparr>x509_ParseCertificate := p\<rparr>) fs s
          = buildX509BundlesResponse L fs s)"
proof (intro conjI impI)
  show "loadPEMDERs (L\<lparr>pem_Decode := relabel_decoder f (pem_Decode L)\<rparr>) fs s name
     = loadPEMDERs L fs s name"
    by (rule loadPEMDERs_relabel)
next
  assume a: "fs (filepath_Join L (credsDir s) name) = Some ndata
        \<and> decodes_chain (pem_Decode L) ndata nbs nrest \<and> decoding_stops (pem_Decode L) nrest"
  then have "loadPEMDERs_loop (pem_Decode L) ndata [] = map Block_Bytes nbs"
    by (auto intro: loop_chain)
  with a show "loadPEMDERs L fs s name = Inr (map Block_Bytes nbs)"
    by (simp add: loadPEMDERs_def)
next
  assume a: "fs (filepath_Join L (credsDir s) ''certificates.pem'') = Some data
        \<and> decodes_chain (pem_Decode L) data bs rest \<and> decoding_stops (pem_Decode L) rest
        \<and> buildX509SVIDResponse L fs s = Inr resp"
  then have "loadPEMDERs_loop (pem_Decode L) data [] = map Block_Bytes bs"
    by (auto intro: loop_chain)
  with a have "loadPEMDERs L fs s ''certificates.pem'' = Inr (map Block_Bytes bs)"
    by (simp add: loadPEMDERs_def)
  with a show "map X509Svid (Svids resp) = [concat (map Block_Bytes bs)]"
    by (auto intro: svid_material)
next
  assume a: "fs (filepath_Join L (credsDir s) ''ca_certificates.pem'') = Some cadata
        \<and> decodes_chain (pem_Decode L) cadata cas carest \<and> decoding_stops (pem_Decode L) carest"
  then have "loadPEMDERs_loop (pem_Decode L) cadata [] = map Block_Bytes cas"
    by (auto intro: loop_chain)
  with a have ca: "loadPEMDERs L fs s ''ca_certificates.pem'' = Inr (map Block_Bytes cas)"
    by (simp add: loadPEMDERs_def)
  {
    assume "buildX509SVIDResponse L fs s = Inr resp"
    with ca show "map Bundle (Svids resp) = [concat (map Block_Bytes cas)]"
      by (rule svid_bundle_material)
  next
    assume b: "buildX509BundlesResponse L fs s = Inr bresp
             \<and> loadPEMDERs L fs s ''certificates.pem'' = Inr ders
             \<and> x509_ParseCertificate L (hd ders) = Inr leaf"
    then have b1: "buildX509BundlesResponse L fs s = Inr bresp"
      and b2: "loadPEMDERs L fs s ''certificates.pem'' = Inr ders"
      and b3: "x509_ParseCertificate L (hd ders) = Inr leaf"
      by simp_all
    show "X509_Bundles bresp (''spiffe://'' @ URL_Host (hd (URIs leaf)))
             = Some (concat (map Block_Bytes cas))"
      using b1 b2 b3 ca by (rule bundles_local_entry)
  }
next
  assume a: "loadPEMDERs L fs s ''certificates.pem'' = Inr ders
        \<and> p (hd ders) = x509_ParseCertificate L (hd ders)"
  then show "buildX509SVIDResponse (L\<lparr>x509_ParseCertificate := p\<rparr>) fs s
      = buildX509SVIDResponse L fs s"
    by (auto intro: builders_other_parser(1))
  from a show "buildX509BundlesResponse (L\<lparr>x509_ParseCertificate := p\<rparr>) fs s
      = buildX509BundlesResponse L fs s"
    by (auto intro: builders_other_parser(2))
qed

theorem pem_block_types_not_inspected_witness:
  "loadPEMDERs demo_lib demo_fs1 demo_server ''certificates.pem''
     = Inr [''cert:example.org'', ''pkcs8:ec:K1'', ''late'']
   \<and> loadPEMDERs demo_lib demo_fs1 demo_server ''ca_certificates.pem'' = Inr [''LOCALCA'', ''crl'']
   \<and> map X509Svid (Svids demo_svid1) = [''cert:example.orgpkcs8:ec:K1late'']
   \<and> map Bundle (Svids demo_svid1) = [''LOCALCAcrl'']
   \<and> X509_Bundles demo_x509_bundles ''spiffe://example.org'' = Some ''LOCALCAcrl''
   \<and> buildX509SVIDResponse (demo_lib\<lparr>x509_ParseCertificate := leaf_only_parser\<rparr>) demo_fs1
        demo_server = Inr demo_svid1"
proof -
  let ?d1 = "''[CERTIFICATE|cert:example.org][PRIVATE KEY|pkcs8:ec:K1]junk[CERTIFICATE|late]''"
  let ?b1 = "\<lparr>Block_Type = ''CERTIFICATE'', Block_Headers = [], Block_Bytes = ''cert:example.org''\<rparr>"
  let ?b2 = "\<lparr>Block_Type = ''PRIVATE KEY'', Block_Headers = [], Block_Bytes = ''pkcs8:ec:K1''\<rparr>"
  let ?b3 = "\<lparr>Block_Type = ''CERTIFICATE'', Block_Headers = [], Block_Bytes = ''late''\<rparr>"
  let ?d2 = "''[CERTIFICATE|LOCALCA][X509 CRL|crl]''"
  let ?a1 = "\<lparr>Block_Type = ''CERTIFICATE'', Block_Headers = [], Block_Bytes = ''LOCALCA''\<rparr>"
  let ?a2 = "\<lparr>Block_Type = ''X509 CRL'', Block_Headers = [], Block_Bytes = ''crl''\<rparr>"
  let ?leaf = "\<lparr>URIs = [\<lparr>URL_String = ''spiffe://example.org/workload'',
      URL_Host = ''example.org''\<rparr>]\<rparr>"
  let ?ders = "[''cert:example.org'', ''pkcs8:ec:K1'', ''late'']"
  have chain1: "decodes_chain (pem_Decode demo_lib) ?d1 [?b1, ?b2, ?b3] []
      \<and> decoding_stops (pem_Decode demo_lib) []"
    by (simp add: demo_lib_def Rep_demo_pem_Decode demo_pem_fun_def demo_pem_block_def
        decoding_stops_def)
  have chain2: "decodes_chain (pem_Decode demo_lib) ?d2 [?a1, ?a2] []
      \<and> decoding_stops (pem_Decode demo_lib) []"
    by (simp add: demo_lib_def Rep_demo_pem_Decode demo_pem_fun_def demo_pem_block_def
        decoding_stops_def)
  have f1: "demo_fs1 (filepath_Join demo_lib (credsDir demo_server) ''certificates.pem'') = Some ?d1"
    by (simp add: demo_fs1_def demo_lib_def demo_server_def)
  have f2: "demo_fs1 (filepath_Join demo_lib (credsDir demo_server) ''ca_certificates.pem'')
      = Some ?d2"
    by (simp add: demo_fs1_def demo_lib_def demo_server_def)
  have h1: "demo_fs1 (filepath_Join demo_lib (credsDir demo_server) ''certificates.pem'') = Some ?d1
      \<and> decodes_chain (pem_Decode demo_lib) ?d1 [?b1, ?b2, ?b3] []
      \<and> decoding_stops (pem_Decode demo_lib) []"
    using f1 chain1 by (rule conjI)
  have h2: "demo_fs1 (filepath_Join demo_lib (credsDir demo_server) ''certificates.pem'') = Some ?d1
      \<and> decodes_chain (pem_Decode demo_lib) ?d1 [?b1, ?b2, ?b3] []
      \<and> decoding_stops (pem_Decode demo_lib) []
      \<and> buildX509SVIDResponse demo_lib demo_fs1 demo_server = Inr demo_svid1"
    using f1 chain1 demo_svid1 by simp
  have h3: "demo_fs1 (filepath_Join demo_lib (credsDir demo_server) ''ca_certificates.pem'')
        = Some ?d2
      \<and> decodes_chain (pem_Decode demo_lib) ?d2 [?a1, ?a2] []
      \<and> decoding_stops (pem_Decode demo_lib) []"
    using f2 chain2 by (rule conjI)
  have leaf: "x509_ParseCertificate demo_lib (hd ?ders) = Inr ?leaf"
    by (simp add: demo_lib_def demo_ParseCertificate_def)
  have h4: "buildX509BundlesResponse demo_lib demo_fs1 demo_server = Inr demo_x509_bundles
      \<and> loadPEMDERs demo_lib demo_fs1 demo_server ''certificates.pem'' = Inr ?ders
      \<and> x509_ParseCertificate demo_lib (hd ?ders) = Inr ?leaf"
    using demo_x509_bundles_build demo_fs1_loads(1) leaf by simp
  have h5: "loadPEMDERs demo_lib demo_fs1 demo_server ''certificates.pem'' = Inr ?ders
      \<and> leaf_only_parser (hd ?ders) = x509_ParseCertificate demo_lib (hd ?ders)"
    using demo_fs1_loads(1) by (simp add: leaf_only_parser_def demo_lib_def)
  note t = pem_block_types_not_inspected [where L = demo_lib and fs = demo_fs1 and s = demo_server
      and name = "''certificates.pem''" and ndata = ?d1 and nbs = "[?b1, ?b2, ?b3]"
      and nrest = "[]" and data = ?d1 and bs = "[?b1, ?b2, ?b3]" and rest = "[]"
      and cadata = ?d2 and cas = "[?a1, ?a2]" and carest = "[]"
      and resp = demo_svid1 and bresp = demo_x509_bundles and ders = ?ders and leaf = ?leaf
      and p = leaf_only_parser]
  note t2 = t [THEN conjunct2, THEN conjunct1, THEN mp, OF h1]
  note t3 = t [THEN conjunct2, THEN conjunct2, THEN conjunct1, THEN mp, OF h2]
  note t4 = t [THEN conjunct2, THEN conjunct2, THEN conjunct2, THEN conjunct1, THEN mp, OF h3]
  note t4a = t4 [THEN conjunct1, THEN mp, OF demo_svid1]
  note t4b = t4 [THEN conjunct2, THEN mp, OF h4]
  note t5 = t [THEN conjunct2, THEN conjunct2, THEN conjunct2, THEN conjunct2, THEN mp, OF h5,
      THEN conjunct1]
  from t2 t3 t4a t4b t5 demo_fs1_loads(2) show ?thesis by (simp add: demo_svid1)
qed

text \<open>
  C7. \<^verbatim>\<open>broadcast\<close> does to each registered channel, independently of the others, one
  send that cannot block: a channel with room gets one more pending notification, and a
  channel on which a plain send would block is left as it is (the notification is
  dropped). \<^verbatim>\<open>broadcast\<close> returns for every state of the hub. After any history of
  subscribe, unsubscribe, broadcast and receive operations every registered channel has
  capacity one and at most one pending notification, and after a broadcast exactly one.
\<close>

theorem broadcast_nonblocking_single_slot:
  "(\<forall>sid. subs (broadcast b) sid =
       (case subs b sid of
          None \<Rightarrow> None
        | Some ch \<Rightarrow>
            Some (if chan_len ch < chan_cap ch then ch\<lparr>chan_len := chan_len ch + 1\<rparr> else ch)))
   \<and> (\<forall>sid ch. subs b sid = Some ch \<and> chan_send ch = None \<longrightarrow> subs (broadcast b) sid = Some ch)
   \<and> next_sub (broadcast b) = next_sub b
   \<and> hub_inv (hub_run xs)
   \<and> (\<forall>sid ch. subs (broadcast (hub_run xs)) sid = Some ch \<longrightarrow> chan_len ch = 1)"
proof (intro conjI allI impI)
  fix sid
  show "subs (broadcast b) sid =
       (case subs b sid of
          None \<Rightarrow> None
        | Some ch \<Rightarrow>
            Some (if chan_len ch < chan_cap ch then ch\<lparr>chan_len := chan_len ch + 1\<rparr> else ch))"
    by (rule broadcast_subs)
next
  fix sid ch
  assume "subs b sid = Some ch \<and> chan_send ch = None"
  then show "subs (broadcast b) sid = Some ch"
    by (auto simp: broadcast_subs chan_send_def split: if_splits)
next
  show "next_sub (broadcast b) = next_sub b"
    by (simp add: broadcast_def)
next
  show inv: "hub_inv (hub_run xs)"
    unfolding hub_run_def by (rule hub_inv_foldl [OF hub_inv_new])
  fix sid ch
  assume "subs (broadcast (hub_run xs)) sid = Some ch"
  with inv show "chan_len ch = 1"
    by (rule broadcast_fills)
qed

theorem broadcast_nonblocking_single_slot_witness:
  "subs (hub_run [Subscribe, Subscribe, Broadcast, Receive 0]) 1
     = Some \<lparr>chan_cap = 1, chan_len = 1\<rparr>
   \<and> chan_send \<lparr>chan_cap = 1, chan_len = 1\<rparr> = None
   \<and> subs (broadcast (hub_run [Subscribe, Subscribe, Broadcast, Receive 0])) 1
     = Some \<lparr>chan_cap = 1, chan_len = 1\<rparr>
   \<and> subs (broadcast (hub_run [Subscribe, Subscribe, Broadcast, Receive 0])) 0
     = Some \<lparr>chan_cap = 1, chan_len = 1\<rparr>
   \<and> chan_len (the (subs (hub_run [Subscribe, Subscribe, Broadcast, Receive 0, Broadcast, Broadcast]) 1))
     \<le> 1"
proof -
  let ?b = "hub_run [Subscribe, Subscribe, Broadcast, Receive 0]"
  let ?full = "\<lparr>chan_cap = 1, chan_len = 1\<rparr>"
  note t = broadcast_nonblocking_single_slot [where b = ?b
      and xs = "[Subscribe, Subscribe, Broadcast, Receive 0, Broadcast, Broadcast]"]
  have full: "chan_send ?full = None"
    by (simp add: chan_send_def)
  have h: "subs ?b 1 = Some ?full \<and> chan_send ?full = None"
    using demo_hub_run(4) full by simp
  note dropped = t [THEN conjunct2, THEN conjunct1, THEN spec, THEN spec, THEN mp, OF h]
  have sent: "subs (broadcast ?b) 0 = Some ?full"
    using t [THEN conjunct1, THEN spec, of 0] demo_hub_run(3) by simp
  have "hub_inv (hub_run [Subscribe, Subscribe, Broadcast, Receive 0, Broadcast, Broadcast])"
    by (rule t [THEN conjunct2, THEN conjunct2, THEN conjunct2, THEN conjunct1])
  then have bound: "chan_len (the (subs (hub_run
      [Subscribe, Subscribe, Broadcast, Receive 0, Broadcast, Broadcast]) 1)) \<le> 1"
    unfolding hub_inv_def using demo_hub_run(2) by simp
  from demo_hub_run(4) full dropped sent bound show ?thesis by simp
qed

text \<open>
  C5 (as amended). Whenever \<^verbatim>\<open>buildX509BundlesResponse\<close> returns a response, the chain of
  \<^verbatim>\<open>certificates.pem\<close> is not empty and its first block is a certificate with a URI
  name; the map holds, under \<^verbatim>\<open>spiffe://\<close> followed by the host of the first URI name,
  the concatenation of the CA bundle, whatever the trust-domain map says about that
  domain; and every other entry of the map belongs to a domain of the trust-domain map,
  whose \<^verbatim>\<open>x509-svid\<close> keys have at least one \<^verbatim>\<open>x5c\<close> entry, all of them valid base64,
  and is the concatenation of their decodings.
\<close>

theorem x509_bundles_local_and_federated:
  assumes "buildX509BundlesResponse L fs s = Inr resp"
  shows "\<exists>ders leaf caDERs tb.
      loadPEMDERs L fs s ''certificates.pem'' = Inr ders \<and> ders \<noteq> []
      \<and> x509_ParseCertificate L (hd ders) = Inr leaf \<and> URIs leaf \<noteq> []
      \<and> loadPEMDERs L fs s ''ca_certificates.pem'' = Inr caDERs
      \<and> loadTrustBundles L fs s = Inr tb
      \<and> X509_Bundles resp (''spiffe://'' @ URL_Host (hd (URIs leaf))) = Some (concat caDERs)
      \<and> (\<forall>key v. X509_Bundles resp key = Some v
              \<and> key \<noteq> ''spiffe://'' @ URL_Host (hd (URIs leaf)) \<longrightarrow>
            (\<exists>d e certs. (d, e) \<in> set (TrustDomains tb) \<and> key = ''spiffe://'' @ d
               \<and> map (base64_DecodeString L) (x509_svid_certs e) = map Inr certs
               \<and> certs \<noteq> [] \<and> v = concat certs))"
proof -
  from buildX509Bundles_stages [OF assms] obtain ders leaf caDERs tb where
    st: "loadPEMDERs L fs s ''certificates.pem'' = Inr ders" "ders \<noteq> []"
      "x509_ParseCertificate L (hd ders) = Inr leaf" "URIs leaf \<noteq> []"
      "loadPEMDERs L fs s ''ca_certificates.pem'' = Inr caDERs"
      "loadTrustBundles L fs s = Inr tb"
    and fed: "x509FederatedBundles L (''spiffe://'' @ URL_Host (hd (URIs leaf))) (TrustDomains tb)
           (Map.empty(''spiffe://'' @ URL_Host (hd (URIs leaf)) \<mapsto> concatDERs caDERs))
          = Inr (X509_Bundles resp)"
    by blast
  let ?local = "''spiffe://'' @ URL_Host (hd (URIs leaf))"
  let ?m0 = "Map.empty(?local \<mapsto> concatDERs caDERs)"
  note r = x509FederatedBundles_result [OF fed]
  have local: "X509_Bundles resp ?local = Some (concat caDERs)"
    using r [THEN conjunct1] by (simp add: concatDERs_concat)
  have others: "\<exists>d e certs. (d, e) \<in> set (TrustDomains tb) \<and> key = ''spiffe://'' @ d
               \<and> map (base64_DecodeString L) (x509_svid_certs e) = map Inr certs
               \<and> certs \<noteq> [] \<and> v = concat certs"
    if kv: "X509_Bundles resp key = Some v \<and> key \<noteq> ?local" for key v
  proof -
    from kv have "X509_Bundles resp key \<noteq> ?m0 key" by simp
    with r obtain d e certs where de: "(d, e) \<in> set (TrustDomains tb)" "key = ''spiffe://'' @ d"
      and c: "x509DomainDERs L d (Keys e) [] = Inr certs" "certs \<noteq> []"
        "X509_Bundles resp key = Some (concatDERs certs)"
      by blast
    from x509DomainDERs_result [OF c(1)]
    have "map (base64_DecodeString L) (x509_svid_certs e) = map Inr certs"
      by (simp add: x509_svid_certs_def)
    moreover from c(3) kv have "v = concat certs" by (simp add: concatDERs_concat)
    ultimately show ?thesis using de c(2) by blast
  qed
  from st local others show ?thesis by blast
qed

theorem x509_bundles_local_and_federated_witness:
  "buildX509BundlesResponse demo_lib demo_fs1 demo_server = Inr demo_x509_bundles
   \<and> X509_Bundles demo_x509_bundles ''spiffe://example.org'' = Some ''LOCALCAcrl''
   \<and> X509_Bundles demo_x509_bundles ''spiffe://other.org'' = Some ''OTHER1OTHER2''
   \<and> X509_Bundles demo_x509_bundles ''spiffe://jwtonly.org'' = None"
proof -
  have leaf: "x509_ParseCertificate demo_lib ''cert:example.org''
      = Inr \<lparr>URIs = [\<lparr>URL_String = ''spiffe://example.org/workload'', URL_Host = ''example.org''\<rparr>]\<rparr>"
    by (simp add: demo_lib_def demo_ParseCertificate_def)
  from x509_bundles_local_and_federated [OF demo_x509_bundles_build]
  obtain ders leaf caDERs where
    "loadPEMDERs demo_lib demo_fs1 demo_server ''certificates.pem'' = Inr ders"
    "x509_ParseCertificate demo_lib (hd ders) = Inr leaf"
    "loadPEMDERs demo_lib demo_fs1 demo_server ''ca_certificates.pem'' = Inr caDERs"
    "X509_Bundles demo_x509_bundles (''spiffe://'' @ URL_Host (hd (URIs leaf))) = Some (concat caDERs)"
    by (elim exE conjE)
  then have "X509_Bundles demo_x509_bundles ''spiffe://example.org'' = Some ''LOCALCAcrl''"
    by (auto simp: demo_fs1_loads leaf)
  then show ?thesis
    by (simp add: demo_x509_bundles_build) (simp add: demo_x509_bundles_def)
qed

text \<open>
  C5 as stated fails: a federated domain whose only \<^verbatim>\<open>x5c\<close> entry is the empty string has
  one decoded entry of no bytes; it is included, with an empty bundle.
\<close>

theorem empty_x5c_entry_gives_empty_bundle:
  "base64_DecodeString demo_lib [] = Inr []
   \<and> x509_svid_certs \<lparr>Keys = [demo_key ''x509-svid'' [[]]], SpiffeSequence = 1\<rparr> = [[]]
   \<and> (case buildX509BundlesResponse demo_lib demo_fs_empty_x5c demo_server of
         Inl e \<Rightarrow> False
       | Inr r \<Rightarrow> X509_Bundles r ''spiffe://emptyder.org'' = Some [])"
  by (simp add: buildX509BundlesResponse_def loadPEMDERs_def loadTrustBundles_def demo_defs
      demo_fs_empty_x5c_def x509_svid_certs_def loadPEMDERs_loop.simps)

text \<open>
  C6. Whenever \<^verbatim>\<open>buildJWTBundlesResponse\<close> returns a response for a trust-domain map
  (a Go map: each domain once), the response has an entry for a key exactly when the key
  is \<^verbatim>\<open>spiffe://\<close> followed by a domain that has at least one \<^verbatim>\<open>jwt-svid\<close> key; that
  entry is the key-set document of the marshalled \<^verbatim>\<open>jwt-svid\<close> keys of the domain, in
  order; and keys of any other use do not matter: removing them from every domain changes
  neither the response nor an error.
\<close>

theorem jwt_bundles_exactly_jwt_svid_keys:
  assumes "loadTrustBundles L fs s = Inr tb"
    and "distinct (map fst (TrustDomains tb))"
    and "buildJWTBundlesResponse L fs s = Inr resp"
  shows "(\<forall>key. (JWT_Bundles resp key \<noteq> None)
            = (\<exists>d e. (d, e) \<in> set (TrustDomains tb) \<and> key = ''spiffe://'' @ d
                 \<and> jwt_svid_keys e \<noteq> []))
     \<and> (\<forall>d e. (d, e) \<in> set (TrustDomains tb) \<and> jwt_svid_keys e \<noteq> [] \<longrightarrow>
          (\<exists>bs doc. map (json_Marshal_trustKey L) (jwt_svid_keys e) = map Inr bs
             \<and> json_Marshal_jwks L bs = Inr doc
             \<and> JWT_Bundles resp (''spiffe://'' @ d) = Some doc))
     \<and> jwtBundles L (map (\<lambda>(d, e). (d, jwt_only e)) (TrustDomains tb)) Map.empty
         = jwtBundles L (TrustDomains tb) Map.empty"
proof -
  have run: "jwtBundles L (TrustDomains tb) Map.empty = Inr (JWT_Bundles resp)"
    using assms(1,3)
    by (cases "jwtBundles L (TrustDomains tb) Map.empty")
       (auto simp: buildJWTBundlesResponse_def)
  have entry: "\<exists>bs doc. map (json_Marshal_trustKey L) (jwt_svid_keys e) = map Inr bs
             \<and> json_Marshal_jwks L bs = Inr doc
             \<and> JWT_Bundles resp (''spiffe://'' @ d) = Some doc"
    if "(d, e) \<in> set (TrustDomains tb) \<and> jwt_svid_keys e \<noteq> []" for d e
    using jwtBundles_entry [OF run assms(2)] that by blast
  have present: "(JWT_Bundles resp key \<noteq> None)
            = (\<exists>d e. (d, e) \<in> set (TrustDomains tb) \<and> key = ''spiffe://'' @ d
                 \<and> jwt_svid_keys e \<noteq> [])" for key
  proof
    assume "JWT_Bundles resp key \<noteq> None"
    then have "JWT_Bundles resp key \<noteq> Map.empty key" by simp
    from jwtBundles_changes [OF run this]
    show "\<exists>d e. (d, e) \<in> set (TrustDomains tb) \<and> key = ''spiffe://'' @ d
                 \<and> jwt_svid_keys e \<noteq> []" .
  next
    assume "\<exists>d e. (d, e) \<in> set (TrustDomains tb) \<and> key = ''spiffe://'' @ d
                 \<and> jwt_svid_keys e \<noteq> []"
    then obtain d e where de: "(d, e) \<in> set (TrustDomains tb) \<and> jwt_svid_keys e \<noteq> []"
      and k: "key = ''spiffe://'' @ d" by blast
    from entry [OF de] k show "JWT_Bundles resp key \<noteq> None" by auto
  qed
  from present entry jwtBundles_filter show ?thesis by blast
qed

theorem jwt_bundles_exactly_jwt_svid_keys_witness:
  "buildJWTBundlesResponse demo_lib demo_fs_no_certs demo_server = Inr demo_jwt_bundles
   \<and> JWT_Bundles demo_jwt_bundles ''spiffe://other.org'' = Some ''{keys:[{use:jwt-svid,kty:EC}]}''
   \<and> JWT_Bundles demo_jwt_bundles ''spiffe://x509only.org'' = None"
proof -
  let ?e = "\<lparr>Keys = [demo_key ''x509-svid'' [''OTHER1''], demo_key ''jwt-svid'' [],
                  demo_key ''unknown-use'' []],
          SpiffeSequence = 3\<rparr>"
  have h1: "loadTrustBundles demo_lib demo_fs_no_certs demo_server = Inr doc_jwt"
    by (simp add: loadTrustBundles_def demo_fs_no_certs_def demo_lib_def demo_server_def
        demo_Unmarshal_def)
  have h2: "distinct (map fst (TrustDomains doc_jwt))"
    by (simp add: doc_jwt_def)
  note t = jwt_bundles_exactly_jwt_svid_keys [OF h1 h2 demo_jwt_bundles_build]
  have keys: "jwt_svid_keys ?e = [demo_key ''jwt-svid'' []]"
    by (simp add: jwt_svid_keys_def demo_key_def)
  have mem: "(''other.org'', ?e) \<in> set (TrustDomains doc_jwt) \<and> jwt_svid_keys ?e \<noteq> []"
    by (simp add: keys) (simp add: doc_jwt_def)
  from t [THEN conjunct2, THEN conjunct1, THEN spec, THEN spec, THEN mp, OF mem]
  obtain bs doc where "map (json_Marshal_trustKey demo_lib) (jwt_svid_keys ?e) = map Inr bs"
    "json_Marshal_jwks demo_lib bs = Inr doc"
    "JWT_Bundles demo_jwt_bundles (''spiffe://'' @ ''other.org'') = Some doc"
    by (elim exE conjE)
  then have present: "JWT_Bundles demo_jwt_bundles ''spiffe://other.org''
      = Some ''{keys:[{use:jwt-svid,kty:EC}]}''"
    unfolding keys
    by (auto simp: demo_lib_def demo_Marshal_trustKey_def demo_Marshal_jwks_def demo_key_def)
  have "\<not> (\<exists>d e. (d, e) \<in> set (TrustDomains doc_jwt) \<and> ''spiffe://x509only.org'' = ''spiffe://'' @ d
                 \<and> jwt_svid_keys e \<noteq> [])"
    by (auto simp: doc_jwt_def jwt_svid_keys_def demo_key_def)
  with t [THEN conjunct1, THEN spec, of "''spiffe://x509only.org''"]
  have absent: "JWT_Bundles demo_jwt_bundles ''spiffe://x509only.org'' = None"
    by blast
  from demo_jwt_bundles_build present absent show ?thesis by simp
qed

end
